theory Spec2Isabelle
  imports Complex_Main "HOL-Library.Char_ord" "HOL-Library.List_Lexorder" "HOL-Library.Multiset"
begin

section \<open>The store\<close>

text \<open>
  Modelled from the spec: the schema of the four tables. The database file \<open>food.db\<close> that
  \<open>app.py\<close> opens is not part of the source, so the columns and their types are those of the
  spec's data model: identities and quantities are integers, every other column is text, the
  expiry date is the text \<open>str(date)\<close> that the Add Food handler writes (\<open>YYYY-MM-DD\<close>), and no
  column holds NULL. A table is the list of its rows. Field names carry the alias the SQL of
  \<open>app.py\<close> gives the table (\<open>P\<close>, \<open>R\<close>, \<open>F\<close>, \<open>C\<close>).
\<close>

record provider =
  P_Provider_ID :: int
  P_Name :: string
  P_Type :: string
  P_Address :: string
  P_City :: string
  P_Contact :: string

record receiver =
  R_Receiver_ID :: int
  R_Name :: string
  R_City :: string

record food_listing =
  F_Food_ID :: int
  F_Food_Name :: string
  F_Quantity :: int
  F_Expiry_Date :: string
  F_Provider_ID :: int
  F_Provider_Type :: string
  F_Location :: string
  F_Food_Type :: string
  F_Meal_Type :: string

record claim =
  C_Claim_ID :: int
  C_Food_ID :: int
  C_Receiver_ID :: int
  C_Status :: string

record db =
  Providers :: "provider list"
  Receivers :: "receiver list"
  Food_Listings :: "food_listing list"
  Claims :: "claim list"

text \<open>What \<open>sqlite3\<close> raises when the number of bound parameters differs from the number of
  placeholders of the statement.\<close>

datatype store_error = ProgrammingError

section \<open>Filter Builder (\<open>app.py\<close>, lines 39 to 55)\<close>

text \<open>Python's \<open>sep.join(xs)\<close>.\<close>

fun join :: "string \<Rightarrow> string list \<Rightarrow> string" where
  "join sep [] = []"
| "join sep [x] = x"
| "join sep (x # y # ys) = x @ sep @ join sep (y # ys)"

text \<open>The four columns a facet can constrain, and their SQL text.\<close>

datatype column = Col_P_City | Col_P_Type | Col_F_Food_Type | Col_F_Meal_Type

fun column_name :: "column \<Rightarrow> string" where
  "column_name Col_P_City = ''P.City''"
| "column_name Col_P_Type = ''P.Type''"
| "column_name Col_F_Food_Type = ''F.Food_Type''"
| "column_name Col_F_Meal_Type = ''F.Meal_Type''"

text \<open>
  One element of the list \<open>where\<close>: the clause \<open>column IN (?,...,?)\<close>, kept as the column and the
  number of placeholders; \<open>render_clause\<close> is the text the f-string of the source builds,
  \<open>f"P.City IN ({','.join(['?']*len(city_filter))})"\<close>.
\<close>

type_synonym clause = "column \<times> nat"

definition render_clause :: "clause \<Rightarrow> string" where
  "render_clause cl = column_name (fst cl) @ '' IN ('' @ join '','' (replicate (snd cl) ''?'') @ '')''"

text \<open>
  One \<open>if facet: where.append(...); params += facet\<close> block. A Python list is true exactly
  when it is not empty.
\<close>

definition add_facet :: "column \<Rightarrow> string list \<Rightarrow> clause list \<times> string list \<Rightarrow> clause list \<times> string list" where
  "add_facet col facet st =
     (if facet \<noteq> [] then (fst st @ [(col, length facet)], snd st @ facet) else st)"

text \<open>The four blocks in the order of the source, starting from \<open>where = []\<close>, \<open>params = []\<close>.\<close>

definition filter_builder ::
  "string list \<Rightarrow> string list \<Rightarrow> string list \<Rightarrow> string list \<Rightarrow> clause list \<times> string list" where
  "filter_builder city_filter ptype_filter ftype_filter mtype_filter =
     add_facet Col_F_Meal_Type mtype_filter
       (add_facet Col_F_Food_Type ftype_filter
         (add_facet Col_P_Type ptype_filter
           (add_facet Col_P_City city_filter ([], []))))"

text \<open>\<open>where_sql = ("WHERE " + " AND ".join(where)) if where else ""\<close>.\<close>

definition where_sql :: "clause list \<Rightarrow> string" where
  "where_sql wh = (if wh \<noteq> [] then ''WHERE '' @ join '' AND '' (map render_clause wh) else [])"

section \<open>Filtered browse query (\<open>app.py\<close>, lines 78 to 86)\<close>

text \<open>The row of the result: one field per column of the SELECT list, under its output name.\<close>

record browse_row =
  Food_ID :: int
  Food_Name :: string
  Quantity :: int
  Expiry_Date :: string
  Provider_ID :: int
  Provider_Name :: string
  Provider_Type :: string
  Location :: string
  Food_Type :: string
  Meal_Type :: string

text \<open>
  \<open>SELECT F.Food_ID, F.Food_Name, F.Quantity, F.Expiry_Date, F.Provider_ID,
  P.Name AS Provider_Name, P.Type AS Provider_Type, P.City AS Location, F.Food_Type, F.Meal_Type\<close>.
\<close>

definition select_row :: "food_listing \<Rightarrow> provider \<Rightarrow> browse_row" where
  "select_row f p =
     \<lparr> Food_ID = F_Food_ID f, Food_Name = F_Food_Name f, Quantity = F_Quantity f,
       Expiry_Date = F_Expiry_Date f, Provider_ID = F_Provider_ID f,
       Provider_Name = P_Name p, Provider_Type = P_Type p, Location = P_City p,
       Food_Type = F_Food_Type f, Meal_Type = F_Meal_Type f \<rparr>"

text \<open>\<open>FROM Food_Listings F JOIN Providers P ON F.Provider_ID = P.Provider_ID\<close>.\<close>

definition join_FP :: "db \<Rightarrow> (food_listing \<times> provider) list" where
  "join_FP d =
     concat (map (\<lambda>f. map (Pair f) (filter (\<lambda>p. F_Provider_ID f = P_Provider_ID p) (Providers d)))
                 (Food_Listings d))"

fun column_value :: "column \<Rightarrow> food_listing \<Rightarrow> provider \<Rightarrow> string" where
  "column_value Col_P_City f p = P_City p"
| "column_value Col_P_Type f p = P_Type p"
| "column_value Col_F_Food_Type f p = F_Food_Type f"
| "column_value Col_F_Meal_Type f p = F_Meal_Type f"

text \<open>
  The WHERE condition on one joined row. Placeholders are bound by position: a clause with
  \<open>n\<close> placeholders takes the next \<open>n\<close> parameters, and the clauses are joined by AND.
\<close>

fun eval_where :: "clause list \<Rightarrow> string list \<Rightarrow> food_listing \<Rightarrow> provider \<Rightarrow> bool" where
  "eval_where [] ps f p = True"
| "eval_where (cl # cls) ps f p =
     (column_value (fst cl) f p \<in> set (take (snd cl) ps) \<and> eval_where cls (drop (snd cl) ps) f p)"

text \<open>
  \<open>run_query\<close> on the browse statement. The store refuses a parameter list whose length is
  not the number of placeholders. \<open>ORDER BY F.Expiry_Date\<close> compares the date texts byte by
  byte; the store leaves the order of rows with equal dates open, the model keeps them in
  join order.
\<close>

definition filtered_query :: "clause list \<Rightarrow> string list \<Rightarrow> db \<Rightarrow> store_error + browse_row list" where
  "filtered_query wh params d =
     (if sum_list (map snd wh) \<noteq> length params then Inl ProgrammingError
      else Inr (map (\<lambda>(f, p). select_row f p)
                 (sort_key (\<lambda>(f, p). F_Expiry_Date f)
                   (filter (\<lambda>(f, p). eval_where wh params f p) (join_FP d)))))"

text \<open>The script from the sidebar selections to the table \<open>filtered\<close>.\<close>

definition filtered :: "string list \<Rightarrow> string list \<Rightarrow> string list \<Rightarrow> string list \<Rightarrow> db \<Rightarrow> store_error + browse_row list" where
  "filtered city_filter ptype_filter ftype_filter mtype_filter d =
     (let (wh, params) = filter_builder city_filter ptype_filter ftype_filter mtype_filter
      in filtered_query wh params d)"

section \<open>CRUD handlers (\<open>app.py\<close>, lines 214 to 290)\<close>

text \<open>What the handler shows: \<open>st.success(text)\<close> or \<open>st.error(text)\<close>.\<close>

datatype message = Success string | Error string

text \<open>
  Modelled from the spec: the identity of an inserted row. Both INSERT statements leave the
  identity column out, so the store assigns it; the schema is not in the source. The model
  takes SQLite's rule for an integer primary key: 1 in an empty table, otherwise the largest
  identity in use plus 1.
\<close>

fun next_rowid :: "int list \<Rightarrow> int" where
  "next_rowid [] = 1"
| "next_rowid (x # xs) = fold max xs x + 1"

subsection \<open>Add Provider (lines 226 to 234)\<close>

text \<open>A Python string is true exactly when it is not empty.\<close>

definition add_provider :: "string \<Rightarrow> string \<Rightarrow> string \<Rightarrow> string \<Rightarrow> string \<Rightarrow> db \<Rightarrow> message \<times> db" where
  "add_provider p_name p_type p_addr p_city p_contact d =
     (if p_name \<noteq> [] \<and> p_type \<noteq> [] \<and> p_city \<noteq> [] then
        (Success ''Provider added.'',
         d\<lparr>Providers := Providers d @
              [\<lparr> P_Provider_ID = next_rowid (map P_Provider_ID (Providers d)),
                 P_Name = p_name, P_Type = p_type, P_Address = p_addr,
                 P_City = p_city, P_Contact = p_contact \<rparr>]\<rparr>)
      else (Error ''Name, Type, and City are required.'', d))"

subsection \<open>Add Food Listing: resolving the provider (lines 239 to 247)\<close>

text \<open>Python's \<open>str(n)\<close> for an integer.\<close>

fun show_nat :: "nat \<Rightarrow> string" where
  "show_nat n = (if n < 10 then [char_of (48 + n)] else show_nat (n div 10) @ [char_of (48 + n mod 10)])"

declare show_nat.simps [simp del]

definition show_int :: "int \<Rightarrow> string" where
  "show_int i = (if i < 0 then CHR ''-'' # show_nat (nat (- i)) else show_nat (nat i))"

text \<open>The option text of the provider selectbox: \<open>f"{Name} (#{Provider_ID}, {Type})"\<close>.\<close>

definition provider_label :: "provider \<Rightarrow> string" where
  "provider_label p = P_Name p @ '' (#'' @ show_int (P_Provider_ID p) @ '', '' @ P_Type p @ '')''"

text \<open>Python's \<open>s.split(sep)\<close> for a separator of one character; the result is never empty.\<close>

fun str_split :: "char \<Rightarrow> string \<Rightarrow> string list" where
  "str_split sep [] = [[]]"
| "str_split sep (x # xs) =
     (if x = sep then [] # str_split sep xs
      else (case str_split sep xs of [] \<Rightarrow> [[x]] | y # ys \<Rightarrow> (x # y) # ys))"

text \<open>
  Python's \<open>int(s)\<close> on a string, \<open>None\<close> standing for ValueError: white space on both sides
  is dropped, then an optional sign, then decimal digits, where single underscores may stand
  between digits. Characters are bytes here, so the digits and spaces beyond ASCII that
  Python also accepts are not covered, and neither is its limit on the number of digits.
\<close>

definition is_space :: "char \<Rightarrow> bool" where
  "is_space c = (c = CHR '' '' \<or> (9 \<le> (of_char c :: nat) \<and> (of_char c :: nat) \<le> 13)
                 \<or> (28 \<le> (of_char c :: nat) \<and> (of_char c :: nat) \<le> 31))"

definition is_digit :: "char \<Rightarrow> bool" where
  "is_digit c = (48 \<le> (of_char c :: nat) \<and> (of_char c :: nat) \<le> 57)"

definition strip :: "string \<Rightarrow> string" where
  "strip s = rev (dropWhile is_space (rev (dropWhile is_space s)))"

fun digits_ok :: "string \<Rightarrow> bool" where
  "digits_ok [] = False"
| "digits_ok [c] = is_digit c"
| "digits_ok (c # c' # cs) =
     (is_digit c \<and> (if c' = CHR ''_'' then digits_ok cs else digits_ok (c' # cs)))"

definition digits_value :: "string \<Rightarrow> nat" where
  "digits_value s = fold (\<lambda>c acc. 10 * acc + ((of_char c :: nat) - 48)) (filter is_digit s) 0"

definition py_int :: "string \<Rightarrow> int option" where
  "py_int s =
     (let t = strip s;
          neg = (t \<noteq> [] \<and> hd t = CHR ''-'');
          r = (if t \<noteq> [] \<and> (hd t = CHR ''-'' \<or> hd t = CHR ''+'') then tl t else t)
      in if digits_ok r then Some (if neg then - int (digits_value r) else int (digits_value r))
         else None)"

datatype py_error = IndexError | ValueError

text \<open>\<open>providers_df\<close>: \<open>SELECT Provider_ID, Name, Type FROM Providers ORDER BY Name\<close>.\<close>

definition providers_df :: "db \<Rightarrow> provider list" where
  "providers_df d = sort_key P_Name (Providers d)"

text \<open>
  Lines 241 to 247. \<open>prov_row\<close> is the option text the selectbox returns.
  \<open>prov_row.split("#")[1]\<close> raises IndexError without a \<open>#\<close>, \<open>int\<close> raises ValueError, and
  \<open>.iloc[0]\<close> raises IndexError when no row of \<open>providers_df\<close> has the parsed identity.
  The result is the pair \<open>(provider_id, provider_type)\<close>, \<open>None\<close> for Python's \<open>None\<close>.
\<close>

definition resolve_provider :: "provider list \<Rightarrow> string \<Rightarrow> py_error + (int option \<times> string)" where
  "resolve_provider pdf prov_row =
     (if pdf \<noteq> [] then
        (case str_split CHR ''#'' prov_row of
           _ # part # _ \<Rightarrow>
             (case str_split CHR '','' part of
                [] \<Rightarrow> Inl IndexError
              | num # _ \<Rightarrow>
                  (case py_int num of
                     None \<Rightarrow> Inl ValueError
                   | Some provider_id \<Rightarrow>
                       (case filter (\<lambda>p. P_Provider_ID p = provider_id) pdf of
                          [] \<Rightarrow> Inl IndexError
                        | p # _ \<Rightarrow> Inr (Some provider_id, P_Type p))))
         | _ \<Rightarrow> Inl IndexError)
      else Inr (None, []))"

subsection \<open>Add Food Listing: the button (lines 256 to 265)\<close>

text \<open>Python's truth value of \<open>provider_id\<close>: \<open>None\<close> and the integer 0 are false.\<close>

fun truthy_id :: "int option \<Rightarrow> bool" where
  "truthy_id None = False"
| "truthy_id (Some i) = (i \<noteq> 0)"

text \<open>
  \<open>f_qty\<close> is the value of \<open>st.number_input("Quantity", min_value=1, step=1)\<close>, an integer, and
  \<open>f_exp\<close> is \<open>str\<close> of the chosen date. An exception of the resolution ends the run of the
  script before the button is reached.
\<close>

definition add_food ::
  "string \<Rightarrow> string \<Rightarrow> int \<Rightarrow> string \<Rightarrow> string \<Rightarrow> string \<Rightarrow> string \<Rightarrow> db \<Rightarrow> py_error + (message \<times> db)" where
  "add_food prov_row f_name f_qty f_exp f_loc f_food_type f_meal d =
     (case resolve_provider (providers_df d) prov_row of
        Inl e \<Rightarrow> Inl e
      | Inr (provider_id, provider_type) \<Rightarrow>
          Inr (if truthy_id provider_id \<and> f_name \<noteq> [] \<and> f_loc \<noteq> [] then
                 (Success ''Food listing added.'',
                  d\<lparr>Food_Listings := Food_Listings d @
                       [\<lparr> F_Food_ID = next_rowid (map F_Food_ID (Food_Listings d)),
                          F_Food_Name = f_name, F_Quantity = f_qty, F_Expiry_Date = f_exp,
                          F_Provider_ID = the provider_id, F_Provider_Type = provider_type,
                          F_Location = f_loc, F_Food_Type = f_food_type, F_Meal_Type = f_meal \<rparr>]\<rparr>)
               else (Error ''Provider, Food Name, and Location are required.'', d)))"

subsection \<open>Update Food Quantity (lines 276 to 278) and Delete Food Listing (lines 288 to 290)\<close>

text \<open>\<open>UPDATE Food_Listings SET Quantity = ? WHERE Food_ID = ?\<close> with \<open>(int(new_qty), food_id)\<close>.\<close>

definition update_quantity :: "int \<Rightarrow> int \<Rightarrow> db \<Rightarrow> message \<times> db" where
  "update_quantity new_qty food_id d =
     (Success ''Quantity updated.'',
      d\<lparr>Food_Listings :=
           map (\<lambda>f. if F_Food_ID f = food_id then f\<lparr>F_Quantity := new_qty\<rparr> else f) (Food_Listings d)\<rparr>)"

text \<open>\<open>DELETE FROM Food_Listings WHERE Food_ID = ?\<close> with \<open>(food_id2,)\<close>.\<close>

definition delete_food :: "int \<Rightarrow> db \<Rightarrow> message \<times> db" where
  "delete_food food_id2 d =
     (Success ''Food listing deleted.'',
      d\<lparr>Food_Listings := filter (\<lambda>f. F_Food_ID f \<noteq> food_id2) (Food_Listings d)\<rparr>)"

subsection \<open>Update and Delete: the selected listing (lines 273 to 274, 286 to 287)\<close>

text \<open>The option text of the Update selectbox:
  \<open>f"#{Food_ID} - {Food_Name} (qty {Quantity})"\<close> (line 273).\<close>

definition food_label :: "food_listing \<Rightarrow> string" where
  "food_label f =
     ''#'' @ show_int (F_Food_ID f) @ '' - '' @ F_Food_Name f @ '' (qty '' @ show_int (F_Quantity f) @ '')''"

text \<open>The option text of the Delete selectbox: \<open>f"#{Food_ID} - {Food_Name}"\<close> (line 286).\<close>

definition food_label2 :: "food_listing \<Rightarrow> string" where
  "food_label2 f = ''#'' @ show_int (F_Food_ID f) @ '' - '' @ F_Food_Name f"

text \<open>\<open>int(row.split("#")[1].split(" ")[0])\<close> (lines 274 and 287).\<close>

definition parse_food_id :: "string \<Rightarrow> py_error + int" where
  "parse_food_id row =
     (case str_split CHR ''#'' row of
        _ # part # _ \<Rightarrow>
          (case str_split CHR '' '' part of
             [] \<Rightarrow> Inl IndexError
           | num # _ \<Rightarrow> (case py_int num of None \<Rightarrow> Inl ValueError | Some i \<Rightarrow> Inr i))
      | _ \<Rightarrow> Inl IndexError)"

section \<open>The script as a transition on the store\<close>

text \<open>
  Modelled from the spec: \<open>st.number_input(label, min_value=m, step=1)\<close> of lines 250 and 275.
  The widget belongs to Streamlit, which is not part of the source; the spec says of its two
  uses that the quantity of Add Food Listing "defaults to a minimum of 1" and that the new
  quantity of Update Food Quantity is an "integer \<ge> 0". The widget holds an integer that
  starts at \<open>min_value\<close>. \<open>entries\<close> are the numbers the user enters, in order: an entry below
  \<open>min_value\<close>, or above \<open>2^53 - 1\<close> (the largest integer the widget takes), is refused and the
  value stays as it was; any other entry becomes the value. The result is what the call
  returns in the run of the script that follows the entries.
\<close>

definition number_input :: "int \<Rightarrow> int list \<Rightarrow> int" where
  "number_input min_value entries =
     fold (\<lambda>v cur. if min_value \<le> v \<and> v \<le> 2 ^ 53 - 1 then v else cur) entries min_value"

text \<open>
  One user action: a submitted CRUD form, or a read (the browse table or a report, which
  only pass SELECT statements to \<open>run_query\<close>). The quantity of a form is given by the entries
  made in its number input.
\<close>

datatype action =
    Add_Provider string string string string string
  | Add_Food string string "int list" string string string string
  | Update_Quantity "int list" int
  | Delete_Food int
  | Read_Only

text \<open>
  One run of the script with the form submitted. Add Food reads
  \<open>f_qty = st.number_input("Quantity", min_value=1, step=1)\<close> (line 250) and writes
  \<open>int(f_qty)\<close>; Update reads \<open>new_qty = st.number_input("New Quantity", min_value=0, step=1)\<close>
  (line 275) and writes \<open>int(new_qty)\<close>. A run that ends in an exception writes nothing.
\<close>

fun step :: "action \<Rightarrow> db \<Rightarrow> db" where
  "step (Add_Provider p_name p_type p_addr p_city p_contact) d =
     snd (add_provider p_name p_type p_addr p_city p_contact d)"
| "step (Add_Food prov_row f_name qty_entries f_exp f_loc f_food_type f_meal) d =
     (let f_qty = number_input 1 qty_entries
      in case add_food prov_row f_name f_qty f_exp f_loc f_food_type f_meal d of
           Inl e \<Rightarrow> d
         | Inr (msg, d') \<Rightarrow> d')"
| "step (Update_Quantity qty_entries food_id) d =
     (let new_qty = number_input 0 qty_entries
      in snd (update_quantity new_qty food_id d))"
| "step (Delete_Food food_id2) d = snd (delete_food food_id2 d)"
| "step Read_Only d = d"

definition quantities_nonneg :: "db \<Rightarrow> bool" where
  "quantities_nonneg d = list_all (\<lambda>f. 0 \<le> F_Quantity f) (Food_Listings d)"

section \<open>Reports (\<open>app.py\<close>, lines 100 to 193)\<close>

subsection \<open>9. Provider with most completed claims (lines 154 to 163)\<close>

record q9_row =
  Q9_Provider_ID :: int
  Q9_Provider_Name :: string
  Successful_Claims :: int

text \<open>
  \<open>FROM Claims C JOIN Food_Listings F ON C.Food_ID = F.Food_ID
  JOIN Providers P ON F.Provider_ID = P.Provider_ID WHERE C.Status = 'Completed'\<close>.
  The store compares text byte by byte, so the comparison is case sensitive.
\<close>

definition join_CFP :: "db \<Rightarrow> (claim \<times> food_listing \<times> provider) list" where
  "join_CFP d =
     concat (map (\<lambda>c.
       concat (map (\<lambda>f.
         map (\<lambda>p. (c, f, p)) (filter (\<lambda>p. F_Provider_ID f = P_Provider_ID p) (Providers d)))
         (filter (\<lambda>f. C_Food_ID c = F_Food_ID f) (Food_Listings d))))
       (Claims d))"

definition completed_rows :: "db \<Rightarrow> (claim \<times> food_listing \<times> provider) list" where
  "completed_rows d = filter (\<lambda>(c, f, p). C_Status c = ''Completed'') (join_CFP d)"

text \<open>The key of \<open>GROUP BY P.Provider_ID, P.Name\<close> and \<open>COUNT(*)\<close> of its group.\<close>

definition group_key :: "claim \<times> food_listing \<times> provider \<Rightarrow> int \<times> string" where
  "group_key r = (P_Provider_ID (snd (snd r)), P_Name (snd (snd r)))"

definition group_count :: "db \<Rightarrow> int \<times> string \<Rightarrow> int" where
  "group_count d k = int (length (filter (\<lambda>r. group_key r = k) (completed_rows d)))"

text \<open>
  \<open>ORDER BY Successful_Claims DESC LIMIT 1\<close>. Among groups with the same count the store may
  return any; the model returns the one whose first row comes first in the join.
\<close>

definition most_completed_claims :: "db \<Rightarrow> q9_row list" where
  "most_completed_claims d =
     take 1 (sort_key (\<lambda>r. - Successful_Claims r)
       (map (\<lambda>k. \<lparr> Q9_Provider_ID = fst k, Q9_Provider_Name = snd k,
                   Successful_Claims = group_count d k \<rparr>)
            (remdups (map group_key (completed_rows d)))))"

subsection \<open>10. Claim status distribution (lines 164 to 170)\<close>

record q10_row =
  Status :: string
  Percentage :: rat

text \<open>
  \<open>ROUND(x, 2)\<close> of the store, in exact arithmetic: the nearest multiple of 0.01, halves
  away from zero. The store computes in binary floating point; the model is the exact
  decimal value.
\<close>

definition sql_round2 :: "rat \<Rightarrow> rat" where
  "sql_round2 x =
     (if x < 0 then - (of_int \<lfloor>- x * 100 + 1 / 2\<rfloor> / 100) else of_int \<lfloor>x * 100 + 1 / 2\<rfloor> / 100)"

text \<open>\<open>COUNT(*)\<close> of the group of one status, and \<open>(SELECT COUNT(*) FROM Claims)\<close>.\<close>

definition status_count :: "db \<Rightarrow> string \<Rightarrow> nat" where
  "status_count d s = length (filter (\<lambda>c. C_Status c = s) (Claims d))"

definition percentage :: "db \<Rightarrow> string \<Rightarrow> rat" where
  "percentage d s = sql_round2 (100 * of_nat (status_count d s) / of_nat (length (Claims d)))"

text \<open>
  \<open>GROUP BY Status ORDER BY Percentage DESC\<close>: one row for each status that occurs. An empty
  table has no group, so the division is never by zero.
\<close>

definition status_distribution :: "db \<Rightarrow> q10_row list" where
  "status_distribution d =
     sort_key (\<lambda>r. - Percentage r)
       (map (\<lambda>s. \<lparr> Status = s, Percentage = percentage d s \<rparr>) (remdups (map C_Status (Claims d))))"

section \<open>A small store for concrete evaluations\<close>

definition demo_providers :: "provider list" where
  "demo_providers =
     [\<lparr> P_Provider_ID = 1, P_Name = ''Alpha Mart'', P_Type = ''Grocery Store'',
         P_Address = ''1 Main St'', P_City = ''Pune'', P_Contact = ''111'' \<rparr>,
      \<lparr> P_Provider_ID = 7, P_Name = ''Cafe #1, Downtown'', P_Type = ''Restaurant'',
         P_Address = [], P_City = ''Delhi'', P_Contact = [] \<rparr>]"

definition demo_foods :: "food_listing list" where
  "demo_foods =
     [\<lparr> F_Food_ID = 1, F_Food_Name = ''Bread'', F_Quantity = 5, F_Expiry_Date = ''2025-01-10'',
         F_Provider_ID = 1, F_Provider_Type = ''Grocery Store'', F_Location = ''Mumbai'',
         F_Food_Type = ''Vegan'', F_Meal_Type = ''Lunch'' \<rparr>,
      \<lparr> F_Food_ID = 2, F_Food_Name = ''Curry'', F_Quantity = 3, F_Expiry_Date = ''2025-01-05'',
         F_Provider_ID = 7, F_Provider_Type = ''Restaurant'', F_Location = ''Delhi'',
         F_Food_Type = ''Vegetarian'', F_Meal_Type = ''Dinner'' \<rparr>]"

definition demo_claims :: "claim list" where
  "demo_claims =
     [\<lparr> C_Claim_ID = 1, C_Food_ID = 1, C_Receiver_ID = 1, C_Status = ''Completed'' \<rparr>,
      \<lparr> C_Claim_ID = 2, C_Food_ID = 2, C_Receiver_ID = 1, C_Status = ''Pending'' \<rparr>,
      \<lparr> C_Claim_ID = 3, C_Food_ID = 1, C_Receiver_ID = 1, C_Status = ''Completed'' \<rparr>]"

definition demo_db :: db where
  "demo_db = \<lparr> Providers = demo_providers,
               Receivers = [\<lparr> R_Receiver_ID = 1, R_Name = ''Shelter'', R_City = ''Pune'' \<rparr>],
               Food_Listings = demo_foods, Claims = demo_claims \<rparr>"

text \<open>A sequence of submitted forms on the small store; two of the entries are negative.\<close>

definition demo_actions :: "action list" where
  "demo_actions =
     [Add_Food (provider_label (demo_providers ! 0)) ''Rice'' [- 3] ''2025-02-01'' ''Pune'' ''Vegan'' ''Lunch'',
      Update_Quantity [5, - 1] 1,
      Delete_Food 2]"

text \<open>A store whose only provider has the identity 0.\<close>

definition zero_id_db :: db where
  "zero_id_db =
     \<lparr> Providers = [\<lparr> P_Provider_ID = 0, P_Name = ''Zero Cafe'', P_Type = ''Restaurant'',
                       P_Address = [], P_City = ''Pune'', P_Contact = [] \<rparr>],
       Receivers = [], Food_Listings = [], Claims = [] \<rparr>"

text \<open>A store whose only claim has the status \<open>completed\<close>, in lower case.\<close>

definition lowercase_db :: db where
  "lowercase_db =
     \<lparr> Providers = demo_providers, Receivers = [], Food_Listings = demo_foods,
       Claims = [\<lparr> C_Claim_ID = 1, C_Food_ID = 1, C_Receiver_ID = 1, C_Status = ''completed'' \<rparr>] \<rparr>"

text \<open>A store with seven claims, each with a status of its own.\<close>

definition seven_status_db :: db where
  "seven_status_db =
     \<lparr> Providers = [], Receivers = [], Food_Listings = [],
       Claims =
         [\<lparr> C_Claim_ID = 1, C_Food_ID = 1, C_Receiver_ID = 1, C_Status = ''Pending'' \<rparr>,
          \<lparr> C_Claim_ID = 2, C_Food_ID = 1, C_Receiver_ID = 1, C_Status = ''Completed'' \<rparr>,
          \<lparr> C_Claim_ID = 3, C_Food_ID = 1, C_Receiver_ID = 1, C_Status = ''Cancelled'' \<rparr>,
          \<lparr> C_Claim_ID = 4, C_Food_ID = 1, C_Receiver_ID = 1, C_Status = ''Expired'' \<rparr>,
          \<lparr> C_Claim_ID = 5, C_Food_ID = 1, C_Receiver_ID = 1, C_Status = ''Rejected'' \<rparr>,
          \<lparr> C_Claim_ID = 6, C_Food_ID = 1, C_Receiver_ID = 1, C_Status = ''On Hold'' \<rparr>,
          \<lparr> C_Claim_ID = 7, C_Food_ID = 1, C_Receiver_ID = 1, C_Status = ''Disputed'' \<rparr>] \<rparr>"

section \<open>Properties of the Filter Builder and the browse query\<close>

lemma filter_builder_fst:
  "fst (filter_builder c p f m) =
     (if c \<noteq> [] then [(Col_P_City, length c)] else []) @
     (if p \<noteq> [] then [(Col_P_Type, length p)] else []) @
     (if f \<noteq> [] then [(Col_F_Food_Type, length f)] else []) @
     (if m \<noteq> [] then [(Col_F_Meal_Type, length m)] else [])"
  by (simp add: filter_builder_def add_facet_def)

lemma filter_builder_snd: "snd (filter_builder c p f m) = c @ p @ f @ m"
  by (simp add: filter_builder_def add_facet_def)

lemma add_facet_balanced:
  "sum_list (map snd (fst st)) = length (snd st) \<Longrightarrow>
   sum_list (map snd (fst (add_facet col facet st))) = length (snd (add_facet col facet st))"
  by (simp add: add_facet_def)

lemma filter_builder_balanced:
  "sum_list (map snd (fst (filter_builder c p f m))) = length (snd (filter_builder c p f m))"
  unfolding filter_builder_def by (intro add_facet_balanced) simp

lemma eval_where_append:
  "sum_list (map snd wh) = length ps \<Longrightarrow>
   eval_where (wh @ wh') (ps @ ps') fl pr = (eval_where wh ps fl pr \<and> eval_where wh' ps' fl pr)"
proof (induction wh arbitrary: ps)
  case Nil
  then show ?case by simp
next
  case (Cons cl wh)
  then have le: "snd cl \<le> length ps" by simp
  from Cons.prems have "sum_list (map snd wh) = length (drop (snd cl) ps)" by simp
  from Cons.IH [OF this] le show ?case by auto
qed

lemma eval_where_add_facet:
  "sum_list (map snd (fst st)) = length (snd st) \<Longrightarrow>
   eval_where (fst (add_facet col facet st)) (snd (add_facet col facet st)) fl pr =
     (eval_where (fst st) (snd st) fl pr \<and> (facet = [] \<or> column_value col fl pr \<in> set facet))"
  by (simp add: add_facet_def eval_where_append)

lemma eval_where_filter_builder:
  "eval_where (fst (filter_builder c p f m)) (snd (filter_builder c p f m)) fl pr =
     ((c = [] \<or> P_City pr \<in> set c) \<and> (p = [] \<or> P_Type pr \<in> set p) \<and>
      (f = [] \<or> F_Food_Type fl \<in> set f) \<and> (m = [] \<or> F_Meal_Type fl \<in> set m))"
  unfolding filter_builder_def
  by (simp add: eval_where_add_facet add_facet_balanced)

lemma count_placeholders: "count_list (join '','' (replicate n ''?'')) CHR ''?'' = n"
proof (induction n rule: less_induct)
  case (less n)
  show ?case
  proof (cases n)
    case 0 then show ?thesis by simp
  next
    case (Suc k)
    show ?thesis
    proof (cases k)
      case 0 with Suc show ?thesis by simp
    next
      case (Suc j)
      with \<open>n = Suc k\<close> less.IH [of k] show ?thesis by simp
    qed
  qed
qed

lemma count_column_name: "count_list (column_name col) CHR ''?'' = 0"
  by (cases col) simp_all

lemma count_render_clause: "count_list (render_clause cl) CHR ''?'' = snd cl"
  by (simp add: render_clause_def count_placeholders count_column_name)

lemma count_join_AND:
  "count_list (join '' AND '' xs) CHR ''?'' = sum_list (map (\<lambda>x. count_list x CHR ''?'') xs)"
  by (induction "'' AND ''" xs rule: join.induct) simp_all

lemma count_where_sql: "count_list (where_sql wh) CHR ''?'' = sum_list (map snd wh)"
  by (simp add: where_sql_def count_join_AND count_render_clause comp_def)


lemma filtered_eq:
  "filtered c p f m d =
     Inr (map (\<lambda>(fl, pr). select_row fl pr)
           (sort_key (\<lambda>(fl, pr). F_Expiry_Date fl)
             (filter (\<lambda>(fl, pr). (c = [] \<or> P_City pr \<in> set c) \<and> (p = [] \<or> P_Type pr \<in> set p) \<and>
                                  (f = [] \<or> F_Food_Type fl \<in> set f) \<and> (m = [] \<or> F_Meal_Type fl \<in> set m))
                     (join_FP d))))"
  by (simp add: filtered_def filtered_query_def case_prod_unfold filter_builder_balanced
        eval_where_filter_builder)

lemma render_filter_builder:
  "map render_clause (fst (filter_builder c p f m)) =
     (if c \<noteq> [] then [''P.City IN ('' @ join '','' (replicate (length c) ''?'') @ '')''] else []) @
     (if p \<noteq> [] then [''P.Type IN ('' @ join '','' (replicate (length p) ''?'') @ '')''] else []) @
     (if f \<noteq> [] then [''F.Food_Type IN ('' @ join '','' (replicate (length f) ''?'') @ '')''] else []) @
     (if m \<noteq> [] then [''F.Meal_Type IN ('' @ join '','' (replicate (length m) ''?'') @ '')''] else [])"
  by (simp add: filter_builder_fst render_clause_def)

lemma filter_builder_empty_iff:
  "fst (filter_builder c p f m) = [] \<longleftrightarrow> c = [] \<and> p = [] \<and> f = [] \<and> m = []"
  by (simp add: filter_builder_fst)

text \<open>
  Claim C1. For every selection of the four facets, each possibly empty, the list \<open>where\<close>
  holds one clause \<open>column IN (?,...,?)\<close> for each facet that is not empty, in the order city,
  provider type, food type, meal type, each with one placeholder for each selected value;
  \<open>where_sql\<close> is empty when no facet is selected and otherwise \<open>WHERE\<close> followed by the clauses
  joined by \<open>AND\<close>; the parameters are the selected values in the same order, as many as there
  are placeholders; and the browse result is the join restricted to the rows whose city,
  provider type, food type and meal type each lie in the selected values of its facet when
  that facet is not empty, so every returned row satisfies all selected facets at once.
\<close>

theorem filter_builder_conjunctive:
  "map render_clause (fst (filter_builder c p f m)) =
     (if c \<noteq> [] then [''P.City IN ('' @ join '','' (replicate (length c) ''?'') @ '')''] else []) @
     (if p \<noteq> [] then [''P.Type IN ('' @ join '','' (replicate (length p) ''?'') @ '')''] else []) @
     (if f \<noteq> [] then [''F.Food_Type IN ('' @ join '','' (replicate (length f) ''?'') @ '')''] else []) @
     (if m \<noteq> [] then [''F.Meal_Type IN ('' @ join '','' (replicate (length m) ''?'') @ '')''] else [])
   \<and> where_sql (fst (filter_builder c p f m)) =
       (if c = [] \<and> p = [] \<and> f = [] \<and> m = [] then []
        else ''WHERE '' @ join '' AND '' (map render_clause (fst (filter_builder c p f m))))
   \<and> snd (filter_builder c p f m) = c @ p @ f @ m
   \<and> count_list (where_sql (fst (filter_builder c p f m))) CHR ''?'' = length (snd (filter_builder c p f m))
   \<and> filtered c p f m d =
       Inr (map (\<lambda>(fl, pr). select_row fl pr)
             (sort_key (\<lambda>(fl, pr). F_Expiry_Date fl)
               (filter (\<lambda>(fl, pr). (c = [] \<or> P_City pr \<in> set c) \<and> (p = [] \<or> P_Type pr \<in> set p) \<and>
                                    (f = [] \<or> F_Food_Type fl \<in> set f) \<and> (m = [] \<or> F_Meal_Type fl \<in> set m))
                       (join_FP d))))
   \<and> (\<forall>rows r. filtered c p f m d = Inr rows \<longrightarrow> r \<in> set rows \<longrightarrow>
         (c = [] \<or> Location r \<in> set c) \<and> (p = [] \<or> Provider_Type r \<in> set p) \<and>
         (f = [] \<or> Food_Type r \<in> set f) \<and> (m = [] \<or> Meal_Type r \<in> set m))"
proof (intro conjI)
  show "where_sql (fst (filter_builder c p f m)) =
       (if c = [] \<and> p = [] \<and> f = [] \<and> m = [] then []
        else ''WHERE '' @ join '' AND '' (map render_clause (fst (filter_builder c p f m))))"
    using filter_builder_empty_iff [of c p f m] by (simp add: where_sql_def)
  show "count_list (where_sql (fst (filter_builder c p f m))) CHR ''?'' = length (snd (filter_builder c p f m))"
    by (simp only: count_where_sql filter_builder_balanced)
  show "\<forall>rows r. filtered c p f m d = Inr rows \<longrightarrow> r \<in> set rows \<longrightarrow>
         (c = [] \<or> Location r \<in> set c) \<and> (p = [] \<or> Provider_Type r \<in> set p) \<and>
         (f = [] \<or> Food_Type r \<in> set f) \<and> (m = [] \<or> Meal_Type r \<in> set m)"
    by (auto simp: filtered_eq select_row_def)
qed (rule render_filter_builder filter_builder_snd filtered_eq)+

theorem filter_builder_conjunctive_witness:
  "where_sql (fst (filter_builder [''Pune'', ''Delhi''] [] [''Vegan''] [])) =
     ''WHERE P.City IN (?,?) AND F.Food_Type IN (?)''
   \<and> snd (filter_builder [''Pune'', ''Delhi''] [] [''Vegan''] []) = [''Pune'', ''Delhi'', ''Vegan'']
   \<and> filtered [''Pune'', ''Delhi''] [] [''Vegan''] [] demo_db =
       Inr [select_row (demo_foods ! 0) (demo_providers ! 0)]
   \<and> Location (select_row (demo_foods ! 0) (demo_providers ! 0)) \<in> set [''Pune'', ''Delhi'']
   \<and> Food_Type (select_row (demo_foods ! 0) (demo_providers ! 0)) \<in> set [''Vegan'']"
proof -
  have ev: "filtered [''Pune'', ''Delhi''] [] [''Vegan''] [] demo_db =
       Inr [select_row (demo_foods ! 0) (demo_providers ! 0)]"
    by code_simp
  have rendered: "join '' AND '' [''P.City IN ('' @ join '','' (replicate 2 ''?'') @ '')'',
       ''F.Food_Type IN ('' @ join '','' (replicate 1 ''?'') @ '')''] = ''P.City IN (?,?) AND F.Food_Type IN (?)''"
    by (simp add: numeral_2_eq_2)
  from filter_builder_conjunctive [of "[''Pune'', ''Delhi'']" "[]" "[''Vegan'']" "[]" demo_db] ev rendered
  show ?thesis by simp
qed

lemma set_join_FP:
  "set (join_FP d) =
     {(fl, pr). fl \<in> set (Food_Listings d) \<and> pr \<in> set (Providers d) \<and> F_Provider_ID fl = P_Provider_ID pr}"
  by (auto simp: join_FP_def)








lemma insort_key_map_commute:
  "insort_key k (h x) (map h xs) = map h (insort_key (\<lambda>a. k (h a)) x xs)"
  by (induction xs) simp_all

lemma sort_key_map_commute: "sort_key k (map h xs) = map h (sort_key (\<lambda>a. k (h a)) xs)"
proof (induction xs)
  case Nil
  then show ?case by simp
next
  case (Cons x xs)
  have "sort_key k (map h (x # xs)) = insort_key k (h x) (sort_key k (map h xs))"
    by simp
  also have "\<dots> = insort_key k (h x) (map h (sort_key (\<lambda>a. k (h a)) xs))"
    by (simp only: Cons.IH)
  also have "\<dots> = map h (insort_key (\<lambda>a. k (h a)) x (sort_key (\<lambda>a. k (h a)) xs))"
    by (rule insort_key_map_commute)
  also have "\<dots> = map h (sort_key (\<lambda>a. k (h a)) (x # xs))"
    by simp
  finally show ?case .
qed

lemma join_FP_map_foods:
  assumes "\<And>fl. F_Provider_ID (h fl) = F_Provider_ID fl"
  shows "join_FP (d\<lparr>Food_Listings := map h (Food_Listings d)\<rparr>) = map (\<lambda>(fl, pr). (h fl, pr)) (join_FP d)"
  by (simp add: join_FP_def map_concat comp_def assms)

lemma filtered_ignores_F_Location:
  "filtered c p f m (d\<lparr>Food_Listings := map (\<lambda>fl. fl\<lparr>F_Location := loc fl\<rparr>) (Food_Listings d)\<rparr>)
     = filtered c p f m d"
proof -
  let ?h = "\<lambda>fl. fl\<lparr>F_Location := loc fl\<rparr>"
  let ?g = "\<lambda>(fl, pr). (?h fl, pr)"
  have j: "join_FP (d\<lparr>Food_Listings := map ?h (Food_Listings d)\<rparr>) = map ?g (join_FP d)"
    by (rule join_FP_map_foods) simp
  show ?thesis
    unfolding filtered_eq j
    by (simp add: filter_map sort_key_map_commute comp_def case_prod_unfold select_row_def)
qed

lemma filtered_rows_from_join:
  assumes "filtered c p f m d = Inr rows" and "r \<in> set rows"
  shows "\<exists>fl \<in> set (Food_Listings d). \<exists>pr \<in> set (Providers d).
           F_Provider_ID fl = P_Provider_ID pr \<and> r = select_row fl pr \<and> Location r = P_City pr
           \<and> (c = [] \<or> P_City pr \<in> set c)"
proof -
  from assms obtain fl pr where "(fl, pr) \<in> set (join_FP d)" and "c = [] \<or> P_City pr \<in> set c"
    and "r = select_row fl pr"
    unfolding filtered_eq by auto
  moreover from this have "fl \<in> set (Food_Listings d)" "pr \<in> set (Providers d)"
    "F_Provider_ID fl = P_Provider_ID pr"
    by (simp_all add: set_join_FP)
  moreover have "Location (select_row fl pr) = P_City pr"
    by (simp add: select_row_def)
  ultimately show ?thesis by blast
qed

text \<open>
  Claim C10. Every row of the browse result comes from a listing and the provider joined to
  it, its \<open>Location\<close> column is that provider's \<open>City\<close>, and a selected city facet holds of
  that provider's \<open>City\<close>. The column \<open>Food_Listings.Location\<close> is not read: overwriting it
  in every listing, by any function of the listing, leaves the browse result as it was. (The
  Filter Builder takes the four selections only and no row of the store.)
\<close>

theorem browse_location_is_provider_city:
  "(\<forall>rows r. filtered c p f m d = Inr rows \<longrightarrow> r \<in> set rows \<longrightarrow>
      (\<exists>fl \<in> set (Food_Listings d). \<exists>pr \<in> set (Providers d).
           F_Provider_ID fl = P_Provider_ID pr \<and> r = select_row fl pr \<and> Location r = P_City pr
           \<and> (c = [] \<or> P_City pr \<in> set c)))
   \<and> filtered c p f m (d\<lparr>Food_Listings := map (\<lambda>fl. fl\<lparr>F_Location := loc fl\<rparr>) (Food_Listings d)\<rparr>)
       = filtered c p f m d"
  using filtered_rows_from_join [of c p f m d] filtered_ignores_F_Location [of c p f m loc d]
  by blast

theorem browse_location_is_provider_city_witness:
  "filtered [''Pune''] [] [] [] demo_db = Inr [select_row (demo_foods ! 0) (demo_providers ! 0)]
   \<and> Location (select_row (demo_foods ! 0) (demo_providers ! 0)) = ''Pune''
   \<and> P_City (demo_providers ! 0) = ''Pune''
   \<and> F_Location (demo_foods ! 0) = ''Mumbai''
   \<and> filtered [''Pune''] [] [] []
        (demo_db\<lparr>Food_Listings := map (\<lambda>fl. fl\<lparr>F_Location := ''Pune''\<rparr>) (Food_Listings demo_db)\<rparr>)
       = Inr [select_row (demo_foods ! 0) (demo_providers ! 0)]"
proof -
  have ev: "filtered [''Pune''] [] [] [] demo_db = Inr [select_row (demo_foods ! 0) (demo_providers ! 0)]"
    by code_simp
  have loc: "Location (select_row (demo_foods ! 0) (demo_providers ! 0)) = ''Pune''"
    "P_City (demo_providers ! 0) = ''Pune''" "F_Location (demo_foods ! 0) = ''Mumbai''"
    by (simp_all add: select_row_def demo_providers_def demo_foods_def)
  from browse_location_is_provider_city [of "[''Pune'']" "[]" "[]" "[]" demo_db "\<lambda>fl. ''Pune''"] ev loc
  show ?thesis by simp
qed

section \<open>Properties of the CRUD handlers\<close>

lemma map_update_nth:
  "i < length xs \<Longrightarrow>
   map (\<lambda>f. if F_Food_ID f = fid then f\<lparr>F_Quantity := q\<rparr> else f) xs ! i =
     (if F_Food_ID (xs ! i) = fid then (xs ! i)\<lparr>F_Quantity := q\<rparr> else xs ! i)"
  by simp

lemma map_update_absent:
  "fid \<notin> F_Food_ID ` set xs \<Longrightarrow>
   map (\<lambda>f. if F_Food_ID f = fid then f\<lparr>F_Quantity := q\<rparr> else f) xs = xs"
  by (induction xs) auto

lemma update_keeps_ids:
  "map F_Food_ID (map (\<lambda>f. if F_Food_ID f = fid then f\<lparr>F_Quantity := q\<rparr> else f) xs) = map F_Food_ID xs"
  by (induction xs) auto

lemma length_filter_id:
  "distinct (map F_Food_ID xs) \<Longrightarrow> fid \<in> F_Food_ID ` set xs \<Longrightarrow>
   length (filter (\<lambda>f. F_Food_ID f = fid) xs) = 1"
proof (induction xs)
  case Nil
  then show ?case by simp
next
  case (Cons x xs)
  show ?case
  proof (cases "F_Food_ID x = fid")
    case True
    from Cons.prems have "F_Food_ID x \<notin> F_Food_ID ` set xs" by simp
    with True have "\<forall>y \<in> set xs. F_Food_ID y \<noteq> fid" by blast
    then have "filter (\<lambda>f. F_Food_ID f = fid) xs = []"
      by (simp add: filter_empty_conv)
    with True show ?thesis by simp
  next
    case False
    with Cons show ?thesis by auto
  qed
qed

text \<open>
  Claim C3. The Update Quantity handler with quantity \<open>q\<close> and identity \<open>fid\<close> always reports
  success; it leaves the other three tables and the number of listings as they were; each
  listing whose \<open>Food_ID\<close> is \<open>fid\<close> becomes the same row with \<open>Quantity = q\<close> and every other
  listing stays as it was, so a read afterwards finds \<open>Quantity = q\<close> on every row with that
  identity, which is exactly one row where identities are unique. When no listing has the
  identity \<open>fid\<close> the store is unchanged and success is reported all the same.
\<close>

theorem update_quantity_effect:
  "fst (update_quantity q fid d) = Success ''Quantity updated.''
   \<and> Providers (snd (update_quantity q fid d)) = Providers d
   \<and> Receivers (snd (update_quantity q fid d)) = Receivers d
   \<and> Claims (snd (update_quantity q fid d)) = Claims d
   \<and> length (Food_Listings (snd (update_quantity q fid d))) = length (Food_Listings d)
   \<and> (\<forall>i < length (Food_Listings d).
        Food_Listings (snd (update_quantity q fid d)) ! i =
          (if F_Food_ID (Food_Listings d ! i) = fid then (Food_Listings d ! i)\<lparr>F_Quantity := q\<rparr>
           else Food_Listings d ! i))
   \<and> (\<forall>row \<in> set (Food_Listings (snd (update_quantity q fid d))). F_Food_ID row = fid \<longrightarrow> F_Quantity row = q)
   \<and> (distinct (map F_Food_ID (Food_Listings d)) \<and> fid \<in> F_Food_ID ` set (Food_Listings d) \<longrightarrow>
        length (filter (\<lambda>row. F_Food_ID row = fid) (Food_Listings (snd (update_quantity q fid d)))) = 1)
   \<and> (fid \<notin> F_Food_ID ` set (Food_Listings d) \<longrightarrow> update_quantity q fid d = (Success ''Quantity updated.'', d))"
proof -
  let ?new = "map (\<lambda>f. if F_Food_ID f = fid then f\<lparr>F_Quantity := q\<rparr> else f) (Food_Listings d)"
  have fl: "Food_Listings (snd (update_quantity q fid d)) = ?new"
    by (simp add: update_quantity_def)
  have one: "distinct (map F_Food_ID (Food_Listings d)) \<and> fid \<in> F_Food_ID ` set (Food_Listings d) \<longrightarrow>
        length (filter (\<lambda>row. F_Food_ID row = fid) ?new) = 1"
  proof
    assume a: "distinct (map F_Food_ID (Food_Listings d)) \<and> fid \<in> F_Food_ID ` set (Food_Listings d)"
    have "F_Food_ID ` set ?new = set (map F_Food_ID ?new)" by (simp only: set_map)
    also have "\<dots> = F_Food_ID ` set (Food_Listings d)" by (simp only: update_keeps_ids set_map)
    finally have "fid \<in> F_Food_ID ` set ?new" using a by simp
    moreover have "distinct (map F_Food_ID ?new)" using a by (simp only: update_keeps_ids)
    ultimately show "length (filter (\<lambda>row. F_Food_ID row = fid) ?new) = 1"
      by (rule length_filter_id [rotated])
  qed
  have absent: "fid \<notin> F_Food_ID ` set (Food_Listings d) \<longrightarrow> update_quantity q fid d = (Success ''Quantity updated.'', d)"
    by (simp add: update_quantity_def map_update_absent)
  have rows: "\<forall>row \<in> set ?new. F_Food_ID row = fid \<longrightarrow> F_Quantity row = q"
  proof (intro ballI impI)
    fix row
    assume a: "row \<in> set ?new" and b: "F_Food_ID row = fid"
    from a have "row \<in> (\<lambda>f. if F_Food_ID f = fid then f\<lparr>F_Quantity := q\<rparr> else f) ` set (Food_Listings d)"
      by (simp only: set_map)
    then obtain f where r: "row = (if F_Food_ID f = fid then f\<lparr>F_Quantity := q\<rparr> else f)"
      by (rule imageE)
    show "F_Quantity row = q"
    proof (cases "F_Food_ID f = fid")
      case True
      with r show ?thesis by simp
    next
      case False
      with r have "row = f" by simp
      with b False show ?thesis by simp
    qed
  qed
  have nth: "\<forall>i < length (Food_Listings d). ?new ! i =
          (if F_Food_ID (Food_Listings d ! i) = fid then (Food_Listings d ! i)\<lparr>F_Quantity := q\<rparr>
           else Food_Listings d ! i)"
    by simp
  have rest: "fst (update_quantity q fid d) = Success ''Quantity updated.''"
    "Providers (snd (update_quantity q fid d)) = Providers d"
    "Receivers (snd (update_quantity q fid d)) = Receivers d"
    "Claims (snd (update_quantity q fid d)) = Claims d"
    "length ?new = length (Food_Listings d)"
    by (simp_all add: update_quantity_def)
  show ?thesis
    unfolding fl by (intro conjI) (rule rest one absent rows nth)+
qed

theorem update_quantity_effect_witness:
  "distinct (map F_Food_ID (Food_Listings demo_db))
   \<and> 2 \<in> F_Food_ID ` set (Food_Listings demo_db)
   \<and> Food_Listings (snd (update_quantity 5 2 demo_db)) = [demo_foods ! 0, (demo_foods ! 1)\<lparr>F_Quantity := 5\<rparr>]
   \<and> length (filter (\<lambda>row. F_Food_ID row = 2) (Food_Listings (snd (update_quantity 5 2 demo_db)))) = 1
   \<and> 9 \<notin> F_Food_ID ` set (Food_Listings demo_db)
   \<and> update_quantity 5 9 demo_db = (Success ''Quantity updated.'', demo_db)"
proof -
  have a: "distinct (map F_Food_ID (Food_Listings demo_db))" "2 \<in> F_Food_ID ` set (Food_Listings demo_db)"
    "9 \<notin> F_Food_ID ` set (Food_Listings demo_db)"
    by (simp_all add: demo_db_def demo_foods_def)
  have ev: "Food_Listings (snd (update_quantity 5 2 demo_db)) = [demo_foods ! 0, (demo_foods ! 1)\<lparr>F_Quantity := 5\<rparr>]"
    by (simp add: update_quantity_def demo_db_def demo_foods_def)
  from update_quantity_effect [of 5 2 demo_db] update_quantity_effect [of 5 9 demo_db] a ev
  show ?thesis by blast
qed

text \<open>
  Claim C4. The Delete handler with identity \<open>fid\<close> always reports success and leaves the
  other three tables as they were; the listings that remain are those with another identity,
  unchanged and in their order. When no listing has the identity \<open>fid\<close> the store is
  unchanged. When identities are unique and a listing has the identity \<open>fid\<close>, exactly that
  one row is removed: the number of listings drops by 1.
\<close>

theorem delete_food_effect:
  "fst (delete_food fid d) = Success ''Food listing deleted.''
   \<and> Providers (snd (delete_food fid d)) = Providers d
   \<and> Receivers (snd (delete_food fid d)) = Receivers d
   \<and> Claims (snd (delete_food fid d)) = Claims d
   \<and> Food_Listings (snd (delete_food fid d)) = filter (\<lambda>row. F_Food_ID row \<noteq> fid) (Food_Listings d)
   \<and> (fid \<notin> F_Food_ID ` set (Food_Listings d) \<longrightarrow> delete_food fid d = (Success ''Food listing deleted.'', d))
   \<and> (distinct (map F_Food_ID (Food_Listings d)) \<and> fid \<in> F_Food_ID ` set (Food_Listings d) \<longrightarrow>
        length (Food_Listings (snd (delete_food fid d))) + 1 = length (Food_Listings d)
        \<and> (\<exists>row. F_Food_ID row = fid
              \<and> mset (Food_Listings d) = add_mset row (mset (Food_Listings (snd (delete_food fid d))))))"
proof -
  let ?old = "Food_Listings d"
  let ?new = "filter (\<lambda>row. F_Food_ID row \<noteq> fid) ?old"
  have fl: "Food_Listings (snd (delete_food fid d)) = ?new"
    by (simp add: delete_food_def)
  have absent: "fid \<notin> F_Food_ID ` set ?old \<longrightarrow> delete_food fid d = (Success ''Food listing deleted.'', d)"
  proof
    assume "fid \<notin> F_Food_ID ` set ?old"
    then have "?new = ?old" by (auto simp: filter_id_conv)
    then show "delete_food fid d = (Success ''Food listing deleted.'', d)"
      by (simp add: delete_food_def)
  qed
  have present: "distinct (map F_Food_ID ?old) \<and> fid \<in> F_Food_ID ` set ?old \<longrightarrow>
        length ?new + 1 = length ?old
        \<and> (\<exists>row. F_Food_ID row = fid \<and> mset ?old = add_mset row (mset ?new))"
  proof
    assume a: "distinct (map F_Food_ID ?old) \<and> fid \<in> F_Food_ID ` set ?old"
    then have "length (filter (\<lambda>row. F_Food_ID row = fid) ?old) = 1"
      by (simp add: length_filter_id)
    then obtain row where row: "filter (\<lambda>row. F_Food_ID row = fid) ?old = [row]"
      by (auto simp: length_Suc_conv)
    then have "row \<in> set (filter (\<lambda>row. F_Food_ID row = fid) ?old)" by simp
    then have rid: "F_Food_ID row = fid" by simp
    have "mset ?old = mset (filter (\<lambda>row. F_Food_ID row = fid) ?old) + mset ?new"
      by (simp only: mset_filter multiset_partition [symmetric])
    with row have ms: "mset ?old = add_mset row (mset ?new)" by simp
    have "size (mset ?old) = size (add_mset row (mset ?new))" by (simp only: ms)
    then have "length ?new + 1 = length ?old" by (simp only: size_mset size_add_mset Suc_eq_plus1)
    with rid ms show "length ?new + 1 = length ?old
        \<and> (\<exists>row. F_Food_ID row = fid \<and> mset ?old = add_mset row (mset ?new))"
      by blast
  qed
  have rest: "fst (delete_food fid d) = Success ''Food listing deleted.''"
    "Providers (snd (delete_food fid d)) = Providers d"
    "Receivers (snd (delete_food fid d)) = Receivers d"
    "Claims (snd (delete_food fid d)) = Claims d"
    by (simp_all add: delete_food_def)
  have same: "?new = filter (\<lambda>row. F_Food_ID row \<noteq> fid) (Food_Listings d)" ..
  show ?thesis
    unfolding fl by (intro conjI) (rule rest absent present same)+
qed

theorem delete_food_effect_witness:
  "distinct (map F_Food_ID (Food_Listings demo_db))
   \<and> 2 \<in> F_Food_ID ` set (Food_Listings demo_db)
   \<and> Food_Listings (snd (delete_food 2 demo_db)) = [demo_foods ! 0]
   \<and> length (Food_Listings (snd (delete_food 2 demo_db))) + 1 = length (Food_Listings demo_db)
   \<and> 9 \<notin> F_Food_ID ` set (Food_Listings demo_db)
   \<and> delete_food 9 demo_db = (Success ''Food listing deleted.'', demo_db)"
proof -
  have a: "distinct (map F_Food_ID (Food_Listings demo_db))" "2 \<in> F_Food_ID ` set (Food_Listings demo_db)"
    "9 \<notin> F_Food_ID ` set (Food_Listings demo_db)"
    by (simp_all add: demo_db_def demo_foods_def)
  have ev: "Food_Listings (snd (delete_food 2 demo_db)) = [demo_foods ! 0]"
    by (simp add: delete_food_def demo_db_def demo_foods_def)
  from delete_food_effect [of 2 demo_db] delete_food_effect [of 9 demo_db] a ev
  show ?thesis by blast
qed

text \<open>
  Claim C6. If Name, Type or City is empty, Add Provider shows the validation error and the
  store is unchanged. If all three are not empty it reports success and appends exactly one
  provider row with the five entered values to \<open>Providers\<close>, whatever Address and Contact are
  (empty included), leaving the other tables as they were.
\<close>

theorem add_provider_validation:
  "(p_name = [] \<or> p_type = [] \<or> p_city = [] \<longrightarrow>
      add_provider p_name p_type p_addr p_city p_contact d = (Error ''Name, Type, and City are required.'', d))
   \<and> (p_name \<noteq> [] \<and> p_type \<noteq> [] \<and> p_city \<noteq> [] \<longrightarrow>
        fst (add_provider p_name p_type p_addr p_city p_contact d) = Success ''Provider added.''
        \<and> (\<exists>pid. Providers (snd (add_provider p_name p_type p_addr p_city p_contact d)) =
              Providers d @ [\<lparr> P_Provider_ID = pid, P_Name = p_name, P_Type = p_type,
                               P_Address = p_addr, P_City = p_city, P_Contact = p_contact \<rparr>])
        \<and> length (Providers (snd (add_provider p_name p_type p_addr p_city p_contact d))) = length (Providers d) + 1
        \<and> Receivers (snd (add_provider p_name p_type p_addr p_city p_contact d)) = Receivers d
        \<and> Food_Listings (snd (add_provider p_name p_type p_addr p_city p_contact d)) = Food_Listings d
        \<and> Claims (snd (add_provider p_name p_type p_addr p_city p_contact d)) = Claims d)"
  by (auto simp: add_provider_def)

theorem add_provider_validation_witness:
  "add_provider [] ''Restaurant'' ''2 Side St'' ''Pune'' ''222'' demo_db =
     (Error ''Name, Type, and City are required.'', demo_db)
   \<and> fst (add_provider ''Beta'' ''Restaurant'' [] ''Pune'' [] demo_db) = Success ''Provider added.''
   \<and> length (Providers (snd (add_provider ''Beta'' ''Restaurant'' [] ''Pune'' [] demo_db))) =
       length (Providers demo_db) + 1
   \<and> length (Providers demo_db) = 2"
proof -
  have ne: "''Beta'' \<noteq> []" "''Restaurant'' \<noteq> []" "''Pune'' \<noteq> []"
    by simp_all
  have len: "length (Providers demo_db) = 2"
    by (simp add: demo_db_def demo_providers_def)
  from add_provider_validation [of "[]" "''Restaurant''" "''Pune''" "''2 Side St''" "''222''" demo_db]
  have e1: "add_provider [] ''Restaurant'' ''2 Side St'' ''Pune'' ''222'' demo_db =
     (Error ''Name, Type, and City are required.'', demo_db)"
    by blast
  from add_provider_validation [of "''Beta''" "''Restaurant''" "''Pune''" "[]" "[]" demo_db] ne
  have e2: "fst (add_provider ''Beta'' ''Restaurant'' [] ''Pune'' [] demo_db) = Success ''Provider added.''
   \<and> length (Providers (snd (add_provider ''Beta'' ''Restaurant'' [] ''Pune'' [] demo_db))) =
       length (Providers demo_db) + 1"
    by blast
  from e1 e2 len show ?thesis by blast
qed

section \<open>The quantity invariant\<close>

lemma number_input_fold_lower:
  "min_value \<le> cur \<Longrightarrow>
   min_value \<le> fold (\<lambda>v cur. if min_value \<le> v \<and> v \<le> 2 ^ 53 - 1 then v else cur) entries cur"
  by (induction entries arbitrary: cur) simp_all

lemma number_input_lower: "min_value \<le> number_input min_value entries"
  unfolding number_input_def by (rule number_input_fold_lower) simp

lemma number_input_untouched: "number_input min_value [] = min_value"
  by (simp add: number_input_def)

lemma add_food_listings:
  "add_food prov_row f_name f_qty f_exp f_loc f_food_type f_meal d = Inr (msg, d') \<Longrightarrow>
   Food_Listings d' = Food_Listings d
   \<or> (\<exists>row. Food_Listings d' = Food_Listings d @ [row] \<and> F_Quantity row = f_qty)"
  unfolding add_food_def
  by (cases "resolve_provider (providers_df d) prov_row") (auto split: if_splits)

lemma step_add_food_listings:
  "Food_Listings (step (Add_Food prov_row f_name qty_entries f_exp f_loc f_food_type f_meal) d) = Food_Listings d
   \<or> (\<exists>row. Food_Listings (step (Add_Food prov_row f_name qty_entries f_exp f_loc f_food_type f_meal) d) =
          Food_Listings d @ [row] \<and> F_Quantity row = number_input 1 qty_entries \<and> 1 \<le> F_Quantity row)"
proof (cases "add_food prov_row f_name (number_input 1 qty_entries) f_exp f_loc f_food_type f_meal d")
  case (Inl e)
  then show ?thesis by simp
next
  case (Inr r)
  obtain msg d' where r: "r = (msg, d')" by (cases r)
  from Inr r have st: "step (Add_Food prov_row f_name qty_entries f_exp f_loc f_food_type f_meal) d = d'"
    by simp
  from Inr r add_food_listings [of prov_row f_name "number_input 1 qty_entries" f_exp f_loc f_food_type f_meal d msg d']
  have "Food_Listings d' = Food_Listings d
        \<or> (\<exists>row. Food_Listings d' = Food_Listings d @ [row] \<and> F_Quantity row = number_input 1 qty_entries)"
    by simp
  with number_input_lower [of 1 qty_entries] show ?thesis
    unfolding st by auto
qed

lemma step_update_rows:
  assumes "row \<in> set (Food_Listings (step (Update_Quantity qty_entries fid) d))"
  shows "row \<in> set (Food_Listings d)
         \<or> (F_Quantity row = number_input 0 qty_entries \<and> 0 \<le> F_Quantity row)"
proof -
  let ?q = "number_input 0 qty_entries"
  from assms
  have "row \<in> (\<lambda>f. if F_Food_ID f = fid then f\<lparr>F_Quantity := ?q\<rparr> else f) ` set (Food_Listings d)"
    by (simp add: update_quantity_def)
  then obtain f where f: "f \<in> set (Food_Listings d)"
    and r: "row = (if F_Food_ID f = fid then f\<lparr>F_Quantity := ?q\<rparr> else f)"
    by (rule imageE)
  show ?thesis
  proof (cases "F_Food_ID f = fid")
    case True
    with r have "F_Quantity row = ?q" by simp
    with number_input_lower [of 0 qty_entries] show ?thesis by simp
  next
    case False
    with r f show ?thesis by simp
  qed
qed

lemma step_delete_rows:
  "set (Food_Listings (step (Delete_Food fid) d)) \<subseteq> set (Food_Listings d)"
  by (simp add: delete_food_def)

lemma step_add_provider_listings:
  "Food_Listings (step (Add_Provider p_name p_type p_addr p_city p_contact) d) = Food_Listings d"
  by (simp add: add_provider_def)

lemma quantities_nonneg_iff:
  "quantities_nonneg d \<longleftrightarrow> (\<forall>row \<in> set (Food_Listings d). 0 \<le> F_Quantity row)"
  by (simp add: quantities_nonneg_def list_all_iff)

lemma step_preserves:
  assumes inv: "quantities_nonneg d"
  shows "quantities_nonneg (step a d)"
proof (cases a)
  case (Add_Provider p_name p_type p_addr p_city p_contact)
  with inv show ?thesis
    by (simp only: quantities_nonneg_iff step_add_provider_listings)
next
  case (Add_Food prov_row f_name qty_entries f_exp f_loc f_food_type f_meal)
  from step_add_food_listings [of prov_row f_name qty_entries f_exp f_loc f_food_type f_meal d]
  show ?thesis
  proof
    assume "Food_Listings (step (Add_Food prov_row f_name qty_entries f_exp f_loc f_food_type f_meal) d) = Food_Listings d"
    with inv Add_Food show ?thesis by (simp only: quantities_nonneg_iff)
  next
    assume "\<exists>row. Food_Listings (step (Add_Food prov_row f_name qty_entries f_exp f_loc f_food_type f_meal) d) =
          Food_Listings d @ [row] \<and> F_Quantity row = number_input 1 qty_entries \<and> 1 \<le> F_Quantity row"
    then obtain row where "Food_Listings (step a d) = Food_Listings d @ [row]" and "1 \<le> F_Quantity row"
      using Add_Food by blast
    with inv show ?thesis
      by (auto simp: quantities_nonneg_iff)
  qed
next
  case (Update_Quantity qty_entries fid)
  show ?thesis
    unfolding quantities_nonneg_iff
  proof
    fix row
    assume "row \<in> set (Food_Listings (step a d))"
    with Update_Quantity step_update_rows [of row qty_entries fid d]
    have "row \<in> set (Food_Listings d) \<or> 0 \<le> F_Quantity row" by blast
    with inv show "0 \<le> F_Quantity row"
      by (auto simp: quantities_nonneg_iff)
  qed
next
  case (Delete_Food fid)
  with inv step_delete_rows [of fid d] show ?thesis
    unfolding quantities_nonneg_iff by blast
next
  case Read_Only
  with inv show ?thesis by simp
qed

lemma fold_step_preserves:
  "quantities_nonneg d \<Longrightarrow> quantities_nonneg (fold step acts d)"
  by (induction acts arbitrary: d) (simp_all add: step_preserves)

text \<open>
  Claim C7. Every action of the script keeps all quantities non-negative: the invariant
  passes from the store before an action to the store after it, whatever the user enters, and
  so along any sequence of actions. The number inputs return a value that is at least their
  \<open>min_value\<close>. Add Food leaves the listings as they are or appends one row, whose quantity is
  the value of its number input and at least 1; Update gives each row either its old content
  or the value of its number input, which is at least 0; Delete only removes rows; Add
  Provider and the reads leave the listings as they were.
\<close>

theorem quantity_invariant:
  "(quantities_nonneg d \<longrightarrow> quantities_nonneg (step a d))
   \<and> (quantities_nonneg d \<longrightarrow> quantities_nonneg (fold step acts d))
   \<and> min_value \<le> number_input min_value entries
   \<and> (Food_Listings (step (Add_Food prov_row f_name qty_entries f_exp f_loc f_food_type f_meal) d) = Food_Listings d
      \<or> (\<exists>row. Food_Listings (step (Add_Food prov_row f_name qty_entries f_exp f_loc f_food_type f_meal) d) =
            Food_Listings d @ [row] \<and> F_Quantity row = number_input 1 qty_entries \<and> 1 \<le> F_Quantity row))
   \<and> (\<forall>row \<in> set (Food_Listings (step (Update_Quantity qty_entries fid) d)).
         row \<in> set (Food_Listings d)
         \<or> (F_Quantity row = number_input 0 qty_entries \<and> 0 \<le> F_Quantity row))
   \<and> set (Food_Listings (step (Delete_Food fid) d)) \<subseteq> set (Food_Listings d)
   \<and> Food_Listings (step (Add_Provider p_name p_type p_addr p_city p_contact) d) = Food_Listings d
   \<and> step Read_Only d = d"
proof (intro conjI)
  show "quantities_nonneg d \<longrightarrow> quantities_nonneg (step a d)"
    using step_preserves by blast
  show "quantities_nonneg d \<longrightarrow> quantities_nonneg (fold step acts d)"
    using fold_step_preserves by blast
  show "\<forall>row \<in> set (Food_Listings (step (Update_Quantity qty_entries fid) d)).
         row \<in> set (Food_Listings d)
         \<or> (F_Quantity row = number_input 0 qty_entries \<and> 0 \<le> F_Quantity row)"
    using step_update_rows by blast
  show "step Read_Only d = d" by simp
qed (rule number_input_lower step_add_food_listings step_delete_rows step_add_provider_listings)+

theorem quantity_invariant_witness:
  "quantities_nonneg demo_db
   \<and> number_input 0 [5, - 1] = 5
   \<and> number_input 1 [- 3] = 1
   \<and> map F_Quantity (Food_Listings (step (Update_Quantity [- 1] 1) demo_db)) = [0, 3]
   \<and> quantities_nonneg (step (Update_Quantity [- 1] 1) demo_db)
   \<and> map F_Quantity (Food_Listings (fold step demo_actions demo_db)) = [5, 1]
   \<and> quantities_nonneg (fold step demo_actions demo_db)"
proof -
  have inv: "quantities_nonneg demo_db"
    by (simp add: quantities_nonneg_def demo_db_def demo_foods_def)
  have ev: "number_input 0 [5, - 1] = 5" "number_input 1 [- 3] = 1"
    "map F_Quantity (Food_Listings (step (Update_Quantity [- 1] 1) demo_db)) = [0, 3]"
    "map F_Quantity (Food_Listings (fold step demo_actions demo_db)) = [5, 1]"
    by code_simp+
  from quantity_invariant [of demo_db "Update_Quantity [- 1] 1" demo_actions] inv ev
  show ?thesis by blast
qed

section \<open>Add Food Listing and the provider selection\<close>

text \<open>
  Claim C5, evaluated where the provider's name contains \<open>#\<close>. The selected provider has the
  identity 7 and the type Restaurant, and its option text is
  \<open>Cafe #1, Downtown (#7, Restaurant)\<close>. \<open>split("#")[1]\<close> is the text after the first \<open>#\<close>, which
  lies in the name, so the identity parsed is 1; the handler reports success and inserts a
  listing with \<open>Provider_ID = 1\<close> and the type of provider 1, Grocery Store. The last two
  conjuncts are a second case: a provider whose identity is 0 is selected, its identity is
  parsed correctly, and the handler treats it as missing because 0 is false in Python.
\<close>

theorem add_food_label_with_hash:
  "provider_label (demo_providers ! 1) = ''Cafe #1, Downtown (#7, Restaurant)''
   \<and> P_Provider_ID (demo_providers ! 1) = 7
   \<and> P_Type (demo_providers ! 1) = ''Restaurant''
   \<and> resolve_provider (providers_df demo_db) (provider_label (demo_providers ! 1)) =
        Inr (Some 1, ''Grocery Store'')
   \<and> add_food (provider_label (demo_providers ! 1)) ''Rice'' 2 ''2025-02-01'' ''Delhi'' ''Vegan'' ''Lunch'' demo_db =
        Inr (Success ''Food listing added.'',
             demo_db\<lparr>Food_Listings := Food_Listings demo_db @
               [\<lparr> F_Food_ID = 3, F_Food_Name = ''Rice'', F_Quantity = 2, F_Expiry_Date = ''2025-02-01'',
                  F_Provider_ID = 1, F_Provider_Type = ''Grocery Store'', F_Location = ''Delhi'',
                  F_Food_Type = ''Vegan'', F_Meal_Type = ''Lunch'' \<rparr>]\<rparr>)
   \<and> provider_label (hd (Providers zero_id_db)) = ''Zero Cafe (#0, Restaurant)''
   \<and> add_food (provider_label (hd (Providers zero_id_db))) ''Rice'' 2 ''2025-02-01'' ''Pune'' ''Vegan'' ''Lunch'' zero_id_db =
        Inr (Error ''Provider, Food Name, and Location are required.'', zero_id_db)"
  by code_simp

section \<open>Report 9: provider with most completed claims\<close>

lemma set_join_CFP:
  "set (join_CFP d) =
     {(c, f, p). c \<in> set (Claims d) \<and> f \<in> set (Food_Listings d) \<and> p \<in> set (Providers d)
        \<and> C_Food_ID c = F_Food_ID f \<and> F_Provider_ID f = P_Provider_ID p}"
  by (auto simp: join_CFP_def)

lemma set_completed_rows:
  "set (completed_rows d) =
     {(c, f, p). c \<in> set (Claims d) \<and> f \<in> set (Food_Listings d) \<and> p \<in> set (Providers d)
        \<and> C_Food_ID c = F_Food_ID f \<and> F_Provider_ID f = P_Provider_ID p
        \<and> C_Status c = ''Completed''}"
  unfolding completed_rows_def set_filter set_join_CFP by blast

lemma take1_sort_key_least:
  assumes "r \<in> set (take 1 (sort_key k xs))"
  shows "r \<in> set xs \<and> (\<forall>y \<in> set xs. k r \<le> k y)"
proof (cases "sort_key k xs")
  case Nil
  with assms show ?thesis by simp
next
  case (Cons z zs)
  with assms have rz: "r = z" by simp
  have "sorted (map k (sort_key k xs))" by (rule sorted_sort_key)
  with Cons rz have le: "\<forall>y \<in> set zs. k r \<le> k y" by simp
  have "set (sort_key k xs) = set xs" by simp
  with Cons rz have "set xs = insert r (set zs)" by simp
  with le show ?thesis by auto
qed

lemma group_count_pos:
  assumes "k \<in> group_key ` set (completed_rows d)"
  shows "1 \<le> group_count d k"
proof -
  from assms obtain x where "x \<in> set (completed_rows d)" and "group_key x = k" by blast
  then have "x \<in> set (filter (\<lambda>r. group_key r = k) (completed_rows d))" by simp
  then have "filter (\<lambda>r. group_key r = k) (completed_rows d) \<noteq> []" by (metis empty_iff empty_set)
  then have "0 < length (filter (\<lambda>r. group_key r = k) (completed_rows d))" by simp
  then show ?thesis unfolding group_count_def by linarith
qed

lemma most_completed_claims_rows:
  assumes "r \<in> set (most_completed_claims d)"
  shows "(Q9_Provider_ID r, Q9_Provider_Name r) \<in> group_key ` set (completed_rows d)
        \<and> Successful_Claims r = group_count d (Q9_Provider_ID r, Q9_Provider_Name r)
        \<and> 1 \<le> Successful_Claims r
        \<and> (\<forall>k \<in> group_key ` set (completed_rows d). group_count d k \<le> Successful_Claims r)"
proof -
  let ?mk = "\<lambda>k. \<lparr> Q9_Provider_ID = fst k, Q9_Provider_Name = snd k, Successful_Claims = group_count d k \<rparr>"
  let ?groups = "map ?mk (remdups (map group_key (completed_rows d)))"
  from assms have "r \<in> set (take 1 (sort_key (\<lambda>r. - Successful_Claims r) ?groups))"
    by (simp add: most_completed_claims_def)
  from take1_sort_key_least [OF this]
  have mem: "r \<in> set ?groups" and least: "\<forall>y \<in> set ?groups. - Successful_Claims r \<le> - Successful_Claims y"
    by blast+
  from mem obtain k where k: "k \<in> group_key ` set (completed_rows d)" and r: "r = ?mk k"
    by auto
  from r have key: "(Q9_Provider_ID r, Q9_Provider_Name r) = k" and cnt: "Successful_Claims r = group_count d k"
    by simp_all
  have max: "\<forall>k' \<in> group_key ` set (completed_rows d). group_count d k' \<le> Successful_Claims r"
  proof
    fix k'
    assume "k' \<in> group_key ` set (completed_rows d)"
    then have "?mk k' \<in> set ?groups" by simp
    with least have "- Successful_Claims r \<le> - Successful_Claims (?mk k')" by blast
    then show "group_count d k' \<le> Successful_Claims r" by simp
  qed
  from k key cnt max group_count_pos [OF k] show ?thesis by simp
qed

lemma most_completed_claims_empty:
  "most_completed_claims d = [] \<longleftrightarrow> completed_rows d = []"
proof -
  have "take 1 xs = [] \<longleftrightarrow> xs = []" for xs :: "q9_row list"
    by (cases xs) simp_all
  moreover have "sort_key k xs = [] \<longleftrightarrow> xs = []" for xs :: "q9_row list" and k :: "q9_row \<Rightarrow> int"
    by (metis length_sort length_0_conv)
  ultimately show ?thesis
    by (simp add: most_completed_claims_def)
qed

text \<open>
  Claim C9, as amended. The report returns at most one row, and none exactly when no claim
  with the status \<open>Completed\<close> (the text of the SQL, compared case sensitively) joins to a
  listing and its provider. A returned row names a provider of such a joined claim by
  \<open>Provider_ID\<close> and \<open>Provider_Name\<close>; its \<open>Successful_Claims\<close> is the number of those joined
  claims of that provider, is at least 1, and no other provider has more.
\<close>

theorem most_completed_claims_report:
  "length (most_completed_claims d) \<le> 1
   \<and> (most_completed_claims d = [] \<longleftrightarrow> completed_rows d = [])
   \<and> set (completed_rows d) =
       {(c, f, p). c \<in> set (Claims d) \<and> f \<in> set (Food_Listings d) \<and> p \<in> set (Providers d)
          \<and> C_Food_ID c = F_Food_ID f \<and> F_Provider_ID f = P_Provider_ID p
          \<and> C_Status c = ''Completed''}
   \<and> (\<forall>r \<in> set (most_completed_claims d).
        (Q9_Provider_ID r, Q9_Provider_Name r) \<in> group_key ` set (completed_rows d)
        \<and> Successful_Claims r = group_count d (Q9_Provider_ID r, Q9_Provider_Name r)
        \<and> 1 \<le> Successful_Claims r
        \<and> (\<forall>k \<in> group_key ` set (completed_rows d). group_count d k \<le> Successful_Claims r))"
proof (intro conjI)
  show "length (most_completed_claims d) \<le> 1"
    by (simp add: most_completed_claims_def)
  show "\<forall>r \<in> set (most_completed_claims d).
        (Q9_Provider_ID r, Q9_Provider_Name r) \<in> group_key ` set (completed_rows d)
        \<and> Successful_Claims r = group_count d (Q9_Provider_ID r, Q9_Provider_Name r)
        \<and> 1 \<le> Successful_Claims r
        \<and> (\<forall>k \<in> group_key ` set (completed_rows d). group_count d k \<le> Successful_Claims r)"
    using most_completed_claims_rows by blast
qed (rule most_completed_claims_empty set_completed_rows)+

theorem most_completed_claims_report_witness:
  "most_completed_claims demo_db =
     [\<lparr> Q9_Provider_ID = 1, Q9_Provider_Name = ''Alpha Mart'', Successful_Claims = 2 \<rparr>]
   \<and> completed_rows demo_db \<noteq> []
   \<and> (1, ''Alpha Mart'') \<in> group_key ` set (completed_rows demo_db)
   \<and> group_count demo_db (1, ''Alpha Mart'') = 2"
proof -
  have ev: "most_completed_claims demo_db =
     [\<lparr> Q9_Provider_ID = 1, Q9_Provider_Name = ''Alpha Mart'', Successful_Claims = 2 \<rparr>]"
    by code_simp
  note report = most_completed_claims_report [of demo_db]
  from report [THEN conjunct2, THEN conjunct1] ev
  have ne: "completed_rows demo_db \<noteq> []" by simp
  from report [THEN conjunct2, THEN conjunct2, THEN conjunct2] ev
  have "(1, ''Alpha Mart'') \<in> group_key ` set (completed_rows demo_db)
        \<and> group_count demo_db (1, ''Alpha Mart'') = 2"
    by simp
  with ev ne show ?thesis by blast
qed

text \<open>
  The claim as stated fails on a store whose only claim joins to provider 1 and has the status
  \<open>completed\<close>: the report returns no row, neither a single row nor a count of that claim.
\<close>

theorem most_completed_claims_counterexample:
  "map (C_Status \<circ> fst) (join_CFP lowercase_db) = [''completed'']
   \<and> map (P_Provider_ID \<circ> snd \<circ> snd) (join_CFP lowercase_db) = [1]
   \<and> most_completed_claims lowercase_db = []
   \<and> length (most_completed_claims lowercase_db) \<noteq> 1"
  by code_simp

section \<open>Report 10: claim status distribution\<close>

lemma round_half_error: "\<bar>of_int \<lfloor>y + 1 / 2\<rfloor> - y\<bar> \<le> 1 / 2" for y :: rat
proof -
  have "of_int \<lfloor>y + 1 / 2\<rfloor> \<le> y + 1 / 2" by (rule of_int_floor_le)
  moreover have "y + 1 / 2 < of_int \<lfloor>y + 1 / 2\<rfloor> + 1" by linarith
  ultimately show ?thesis by linarith
qed

lemma sql_round2_nonneg: "0 \<le> x \<Longrightarrow> sql_round2 x = of_int \<lfloor>x * 100 + 1 / 2\<rfloor> / 100"
  by (simp add: sql_round2_def)

lemma sql_round2_error: "0 \<le> x \<Longrightarrow> \<bar>sql_round2 x - x\<bar> \<le> 1 / 200"
proof -
  assume "0 \<le> x"
  then have r: "sql_round2 x = of_int \<lfloor>x * 100 + 1 / 2\<rfloor> / 100" by (rule sql_round2_nonneg)
  from round_half_error [of "x * 100"] show ?thesis
    unfolding r by (simp add: field_simps abs_if split: if_splits)
qed


lemma sum_list_map_error:
  fixes f g :: "'a \<Rightarrow> rat"
  assumes "\<And>x. x \<in> set xs \<Longrightarrow> \<bar>f x - g x\<bar> \<le> e"
  shows "\<bar>sum_list (map f xs) - sum_list (map g xs)\<bar> \<le> of_nat (length xs) * e"
  using assms
proof (induction xs)
  case Nil
  then show ?case by simp
next
  case (Cons x xs)
  then have a: "\<bar>f x - g x\<bar> \<le> e" and b: "\<bar>sum_list (map f xs) - sum_list (map g xs)\<bar> \<le> of_nat (length xs) * e"
    by simp_all
  have "\<bar>sum_list (map f (x # xs)) - sum_list (map g (x # xs))\<bar>
        \<le> \<bar>f x - g x\<bar> + \<bar>sum_list (map f xs) - sum_list (map g xs)\<bar>"
    by simp
  also have "\<dots> \<le> e + of_nat (length xs) * e"
    using a b by linarith
  also have "\<dots> = of_nat (length (x # xs)) * e"
    by (simp add: algebra_simps)
  finally show ?case .
qed

lemma count_over_distinct:
  "distinct ss \<Longrightarrow> set ys \<subseteq> set ss \<Longrightarrow>
   sum_list (map (\<lambda>s. length (filter (\<lambda>y. y = s) ys)) ss) = length ys"
proof (induction ss arbitrary: ys)
  case Nil
  then show ?case by simp
next
  case (Cons s ss)
  let ?rest = "filter (\<lambda>y. y \<noteq> s) ys"
  from Cons.prems have sub: "set ?rest \<subseteq> set ss" by auto
  have same: "length (filter (\<lambda>y. y = t) ys) = length (filter (\<lambda>y. y = t) ?rest)" if "t \<in> set ss" for t
  proof -
    from that Cons.prems have "t \<noteq> s" by auto
    then have "filter (\<lambda>y. y = t) ?rest = filter (\<lambda>y. y = t) ys"
      unfolding filter_filter by (intro filter_cong) auto
    then show ?thesis by simp
  qed
  have "sum_list (map (\<lambda>t. length (filter (\<lambda>y. y = t) ys)) ss)
        = sum_list (map (\<lambda>t. length (filter (\<lambda>y. y = t) ?rest)) ss)"
    by (rule arg_cong [where f = sum_list]) (simp add: same)
  also from Cons.prems sub have "\<dots> = length ?rest"
    by (intro Cons.IH) simp_all
  finally have "sum_list (map (\<lambda>t. length (filter (\<lambda>y. y = t) ys)) (s # ss))
        = length (filter (\<lambda>y. y = s) ys) + length ?rest"
    by simp
  also have "\<dots> = length ys"
    using sum_length_filter_compl [of "\<lambda>y. y = s" ys] by simp
  finally show ?case .
qed

lemma status_count_map:
  "status_count d s = length (filter (\<lambda>y. y = s) (map C_Status (Claims d)))"
  by (simp add: status_count_def filter_map comp_def)

lemma sum_status_count:
  "sum_list (map (status_count d) (remdups (map C_Status (Claims d)))) = length (Claims d)"
proof -
  have "sum_list (map (\<lambda>s. length (filter (\<lambda>y. y = s) (map C_Status (Claims d))))
          (remdups (map C_Status (Claims d)))) = length (map C_Status (Claims d))"
    by (rule count_over_distinct) simp_all
  then show ?thesis
    by (simp add: status_count_map [abs_def])
qed


lemma percentage_error:
  assumes "Claims d \<noteq> []"
  shows "\<bar>percentage d s - 100 * of_nat (status_count d s) / of_nat (length (Claims d))\<bar> \<le> 1 / 200"
proof -
  have "(0::rat) \<le> 100 * of_nat (status_count d s) / of_nat (length (Claims d))"
    by simp
  then show ?thesis
    unfolding percentage_def by (rule sql_round2_error)
qed

lemma sum_list_scaled:
  fixes a :: rat
  shows "sum_list (map (\<lambda>s. a * of_nat (c s)) xs) = a * of_nat (sum_list (map c xs))"
  by (induction xs) (simp_all add: algebra_simps)

lemma exact_shares_sum:
  assumes "Claims d \<noteq> []"
  shows "sum_list (map (\<lambda>s. 100 * of_nat (status_count d s) / of_nat (length (Claims d)))
           (remdups (map C_Status (Claims d)))) = (100 :: rat)"
proof -
  let ?n = "of_nat (length (Claims d)) :: rat"
  from assms have n: "?n \<noteq> 0" by simp
  have "sum_list (map (\<lambda>s. 100 * of_nat (status_count d s) / ?n) (remdups (map C_Status (Claims d))))
        = sum_list (map (\<lambda>s. (100 / ?n) * of_nat (status_count d s)) (remdups (map C_Status (Claims d))))"
    by (simp add: field_simps)
  also have "\<dots> = (100 / ?n) * of_nat (sum_list (map (status_count d) (remdups (map C_Status (Claims d)))))"
    by (rule sum_list_scaled)
  also have "\<dots> = (100 / ?n) * ?n"
    by (simp only: sum_status_count)
  also from n have "\<dots> = 100" by simp
  finally show ?thesis .
qed

lemma sum_list_sort_key:
  fixes f :: "'a \<Rightarrow> rat"
  shows "sum_list (map f (sort_key k xs)) = sum_list (map f xs)"
proof -
  have "sum_list (map f (sort_key k xs)) = sum_mset (image_mset f (mset (sort_key k xs)))"
    by (simp only: sum_mset_sum_list [symmetric] mset_map)
  also have "\<dots> = sum_mset (image_mset f (mset xs))"
    by simp
  also have "\<dots> = sum_list (map f xs)"
    by (simp only: sum_mset_sum_list [symmetric] mset_map)
  finally show ?thesis .
qed

lemma sum_status_distribution:
  "sum_list (map Percentage (status_distribution d)) =
     sum_list (map (percentage d) (remdups (map C_Status (Claims d))))"
  unfolding status_distribution_def sum_list_sort_key
  by (simp add: comp_def)

lemma length_status_distribution:
  "length (status_distribution d) = length (remdups (map C_Status (Claims d)))"
  by (simp add: status_distribution_def)

lemma percentages_sum_error:
  assumes "Claims d \<noteq> []"
  shows "\<bar>sum_list (map Percentage (status_distribution d)) - 100\<bar>
           \<le> of_nat (length (status_distribution d)) / 200"
proof -
  let ?S = "remdups (map C_Status (Claims d))"
  have "\<bar>sum_list (map (percentage d) ?S)
          - sum_list (map (\<lambda>s. 100 * of_nat (status_count d s) / of_nat (length (Claims d))) ?S)\<bar>
        \<le> of_nat (length ?S) * (1 / 200)"
    by (rule sum_list_map_error) (rule percentage_error [OF assms])
  then show ?thesis
    by (simp only: exact_shares_sum [OF assms] sum_status_distribution length_status_distribution
          times_divide_eq_right mult_1_right)
qed

lemma percentage_hundredths:
  "percentage d s =
     of_int \<lfloor>100 * of_nat (status_count d s) / of_nat (length (Claims d)) * 100 + 1 / 2 :: rat\<rfloor> / 100"
  unfolding percentage_def by (rule sql_round2_nonneg) simp

lemma sum_list_hundredths:
  fixes h :: "'a \<Rightarrow> int"
  shows "sum_list (map (\<lambda>s. (of_int (h s) :: rat) / 100) xs) = of_int (sum_list (map h xs)) / 100"
  by (induction xs) (simp_all add: add_divide_distrib)

lemma percentages_sum_hundredths:
  "\<exists>K :: int. sum_list (map Percentage (status_distribution d)) = of_int K / 100"
proof -
  have "sum_list (map (percentage d) (remdups (map C_Status (Claims d)))) =
        sum_list (map (\<lambda>s. (of_int \<lfloor>100 * of_nat (status_count d s) / of_nat (length (Claims d)) * 100 + 1 / 2 :: rat\<rfloor> :: rat) / 100)
          (remdups (map C_Status (Claims d))))"
    by (simp only: percentage_hundredths [abs_def])
  then show ?thesis
    unfolding sum_status_distribution sum_list_hundredths by blast
qed

lemma percentages_sum_small:
  assumes "Claims d \<noteq> []" and "length (status_distribution d) \<le> 5"
  shows "\<bar>sum_list (map Percentage (status_distribution d)) - 100\<bar> \<le> 2 / 100"
proof -
  obtain K :: int where K: "sum_list (map Percentage (status_distribution d)) = of_int K / 100"
    using percentages_sum_hundredths by blast
  from assms(2) have "(of_nat (length (status_distribution d)) :: rat) \<le> 5"
    by (metis of_nat_le_iff of_nat_numeral)
  with percentages_sum_error [OF assms(1)]
  have "\<bar>(of_int K :: rat) / 100 - 100\<bar> \<le> 5 / 200"
    unfolding K by linarith
  then have "(of_int K :: rat) * 2 \<le> 20005" and "19995 \<le> (of_int K :: rat) * 2"
    by linarith+
  then have "(of_int (2 * K) :: rat) \<le> of_int 20005" and "(of_int 19995 :: rat) \<le> of_int (2 * K)"
    by simp_all
  then have "2 * K \<le> 20005" and "19995 \<le> 2 * K"
    by (simp_all only: of_int_le_iff)
  then have "\<bar>K - 10000\<bar> \<le> 2" by linarith
  then have "\<bar>(of_int (K - 10000) :: rat)\<bar> \<le> of_int 2"
    by (simp only: of_int_abs [symmetric] of_int_le_iff)
  then have "\<bar>(of_int K :: rat) - 10000\<bar> \<le> 2"
    by simp
  then show ?thesis
    unfolding K by linarith
qed


lemma mset_status_distribution:
  "mset (map Status (status_distribution d)) = mset (remdups (map C_Status (Claims d)))"
proof -
  have "mset (map Status (status_distribution d)) =
        image_mset Status (image_mset (\<lambda>s. \<lparr> Status = s, Percentage = percentage d s \<rparr>)
          (mset (remdups (map C_Status (Claims d)))))"
    by (simp add: status_distribution_def)
  also have "\<dots> = mset (remdups (map C_Status (Claims d)))"
    by (simp add: image_mset.compositionality comp_def)
  finally show ?thesis .
qed

lemma status_distribution_rows:
  assumes "r \<in> set (status_distribution d)"
  shows "Percentage r = sql_round2 (100 * of_nat (status_count d (Status r)) / of_nat (length (Claims d)))"
proof -
  from assms obtain s where "r = \<lparr> Status = s, Percentage = percentage d s \<rparr>"
    by (auto simp: status_distribution_def)
  then show ?thesis by (simp add: percentage_def)
qed

text \<open>
  Claim C8, as amended. The report has one row for each distinct status of the table, in
  descending order of percentage; the percentage of a row is 100 times the number of claims
  with its status divided by the number of all claims, rounded to 2 decimals. For a table that
  is not empty the percentages sum to 100 within 0.005 for each row of the report, and so
  within 0.02 when the report has at most 5 rows. Percentages are exact decimal numbers here.
\<close>

theorem status_distribution_percentages:
  "mset (map Status (status_distribution d)) = mset (remdups (map C_Status (Claims d)))
   \<and> distinct (map Status (status_distribution d))
   \<and> set (map Status (status_distribution d)) = C_Status ` set (Claims d)
   \<and> (\<forall>r \<in> set (status_distribution d).
         Percentage r = sql_round2 (100 * of_nat (status_count d (Status r)) / of_nat (length (Claims d))))
   \<and> sorted (map (\<lambda>r. - Percentage r) (status_distribution d))
   \<and> (Claims d \<noteq> [] \<longrightarrow>
         \<bar>sum_list (map Percentage (status_distribution d)) - 100\<bar>
           \<le> of_nat (length (status_distribution d)) / 200)
   \<and> (Claims d \<noteq> [] \<and> length (status_distribution d) \<le> 5 \<longrightarrow>
         \<bar>sum_list (map Percentage (status_distribution d)) - 100\<bar> \<le> 2 / 100)"
proof (intro conjI)
  show ms: "mset (map Status (status_distribution d)) = mset (remdups (map C_Status (Claims d)))"
    by (rule mset_status_distribution)
  have "distinct (remdups (map C_Status (Claims d)))" by simp
  with ms show "distinct (map Status (status_distribution d))"
    by (metis mset_eq_imp_distinct_iff)
  from ms have "set (map Status (status_distribution d)) = set (remdups (map C_Status (Claims d)))"
    by (rule mset_eq_setD)
  then show "set (map Status (status_distribution d)) = C_Status ` set (Claims d)"
    by simp
  show "\<forall>r \<in> set (status_distribution d).
         Percentage r = sql_round2 (100 * of_nat (status_count d (Status r)) / of_nat (length (Claims d)))"
    using status_distribution_rows by blast
  show "sorted (map (\<lambda>r. - Percentage r) (status_distribution d))"
    unfolding status_distribution_def by (rule sorted_sort_key)
  show "Claims d \<noteq> [] \<longrightarrow>
         \<bar>sum_list (map Percentage (status_distribution d)) - 100\<bar>
           \<le> of_nat (length (status_distribution d)) / 200"
    using percentages_sum_error by blast
  show "Claims d \<noteq> [] \<and> length (status_distribution d) \<le> 5 \<longrightarrow>
         \<bar>sum_list (map Percentage (status_distribution d)) - 100\<bar> \<le> 2 / 100"
    using percentages_sum_small by blast
qed

theorem status_distribution_percentages_witness:
  "status_distribution demo_db =
     [\<lparr> Status = ''Completed'', Percentage = 6667 / 100 \<rparr>, \<lparr> Status = ''Pending'', Percentage = 3333 / 100 \<rparr>]
   \<and> Claims demo_db \<noteq> []
   \<and> length (status_distribution demo_db) \<le> 5
   \<and> \<bar>sum_list (map Percentage (status_distribution demo_db)) - 100\<bar> \<le> 2 / 100
   \<and> sql_round2 (100 * of_nat (status_count demo_db ''Completed'') / of_nat (length (Claims demo_db))) = 6667 / 100"
proof -
  have ev: "status_distribution demo_db =
     [\<lparr> Status = ''Completed'', Percentage = 6667 / 100 \<rparr>, \<lparr> Status = ''Pending'', Percentage = 3333 / 100 \<rparr>]"
    by code_simp
  have ne: "Claims demo_db \<noteq> []"
    by (simp add: demo_db_def demo_claims_def)
  from ev have len: "length (status_distribution demo_db) \<le> 5" by simp
  note t = status_distribution_percentages [of demo_db]
  from t ne len have small: "\<bar>sum_list (map Percentage (status_distribution demo_db)) - 100\<bar> \<le> 2 / 100"
    by blast
  from t [THEN conjunct2, THEN conjunct2, THEN conjunct2, THEN conjunct1] ev
  have "sql_round2 (100 * of_nat (status_count demo_db ''Completed'') / of_nat (length (Claims demo_db))) = 6667 / 100"
    by simp
  with ev ne len small show ?thesis by blast
qed

text \<open>
  The bound 0.02 of the claim as stated fails for seven statuses with one claim each: every
  percentage is 14.29 and the sum is 100.03.
\<close>

theorem status_distribution_counterexample:
  "length (Claims seven_status_db) = 7
   \<and> map Percentage (status_distribution seven_status_db) =
       [1429 / 100, 1429 / 100, 1429 / 100, 1429 / 100, 1429 / 100, 1429 / 100, 1429 / 100]
   \<and> sum_list (map Percentage (status_distribution seven_status_db)) = 10003 / 100
   \<and> \<not> \<bar>sum_list (map Percentage (status_distribution seven_status_db)) - 100\<bar> \<le> 2 / 100"
  by code_simp

section \<open>Identities parsed from option texts\<close>

lemma is_digit_char_of: "k < 10 \<Longrightarrow> is_digit (char_of (48 + k))" for k :: nat
  by (simp add: is_digit_def)

lemma digit_value_char_of: "k < 10 \<Longrightarrow> (of_char (char_of (48 + k)) :: nat) - 48 = k" for k :: nat
  by simp

lemma is_digit_not_special:
  assumes "is_digit c"
  shows "\<not> is_space c" "c \<noteq> CHR ''-''" "c \<noteq> CHR ''+''" "c \<noteq> CHR ''#''" "c \<noteq> CHR '',''"
    "c \<noteq> CHR '' ''" "c \<noteq> CHR ''_''"
  using assms by (auto simp: is_digit_def is_space_def)

lemma show_nat_digits: "show_nat n \<noteq> [] \<and> (\<forall>c \<in> set (show_nat n). is_digit c)"
proof (induction n rule: show_nat.induct)
  case (1 n)
  show ?case
  proof (cases "n < 10")
    case True
    then show ?thesis
      by (simp add: show_nat.simps [of n] is_digit_char_of)
  next
    case False
    have "n mod 10 < 10" by simp
    with False 1 show ?thesis
      by (simp add: show_nat.simps [of n] is_digit_char_of)
  qed
qed

lemma fold_digits_snoc:
  "fold (\<lambda>c acc. 10 * acc + ((of_char c :: nat) - 48)) (xs @ [c]) a =
     10 * fold (\<lambda>c acc. 10 * acc + ((of_char c :: nat) - 48)) xs a + ((of_char c :: nat) - 48)"
  by simp

lemma digits_value_all_digits:
  "\<forall>c \<in> set s. is_digit c \<Longrightarrow>
   digits_value s = fold (\<lambda>c acc. 10 * acc + ((of_char c :: nat) - 48)) s 0"
  by (simp add: digits_value_def)

lemma digits_value_show_nat: "digits_value (show_nat n) = n"
proof (induction n rule: show_nat.induct)
  case (1 n)
  show ?case
  proof (cases "n < 10")
    case True
    then show ?thesis
      by (simp add: show_nat.simps [of n] digits_value_def is_digit_char_of)
  next
    case False
    have m: "n mod 10 < 10" by simp
    from False 1 have ih: "digits_value (show_nat (n div 10)) = n div 10" by simp
    have all: "\<forall>c \<in> set (show_nat (n div 10) @ [char_of (48 + n mod 10)]). is_digit c"
      using show_nat_digits [of "n div 10"] is_digit_char_of [OF m] by simp
    have "digits_value (show_nat n) = digits_value (show_nat (n div 10) @ [char_of (48 + n mod 10)])"
      using False by (simp add: show_nat.simps [of n])
    also have "\<dots> = fold (\<lambda>c acc. 10 * acc + ((of_char c :: nat) - 48))
                       (show_nat (n div 10) @ [char_of (48 + n mod 10)]) 0"
      using all by (rule digits_value_all_digits)
    also have "\<dots> = 10 * fold (\<lambda>c acc. 10 * acc + ((of_char c :: nat) - 48)) (show_nat (n div 10)) 0
                       + ((of_char (char_of (48 + n mod 10)) :: nat) - 48)"
      by (rule fold_digits_snoc)
    also have "\<dots> = 10 * digits_value (show_nat (n div 10)) + n mod 10"
    proof -
      from show_nat_digits [of "n div 10"] have "\<forall>c \<in> set (show_nat (n div 10)). is_digit c" ..
      then have "digits_value (show_nat (n div 10)) =
          fold (\<lambda>c acc. 10 * acc + ((of_char c :: nat) - 48)) (show_nat (n div 10)) 0"
        by (rule digits_value_all_digits)
      then show ?thesis
        by (simp only: digit_value_char_of [OF m])
    qed
    also have "\<dots> = n" using ih by simp
    finally show ?thesis .
  qed
qed

lemma digits_ok_all_digits: "s \<noteq> [] \<Longrightarrow> \<forall>c \<in> set s. is_digit c \<Longrightarrow> digits_ok s"
proof (induction s rule: digits_ok.induct)
  case 1
  then show ?case by simp
next
  case (2 c)
  then show ?case by simp
next
  case (3 c c' cs)
  from "3.prems" have "is_digit c'" by simp
  then have "c' \<noteq> CHR ''_''" by (rule is_digit_not_special)
  with 3 show ?case by simp
qed

lemma strip_id:
  assumes "s \<noteq> []" and "\<not> is_space (hd s)" and "\<not> is_space (last s)"
  shows "strip s = s"
proof -
  from assms have a: "dropWhile is_space s = s"
    by (cases s) simp_all
  from assms have "rev s \<noteq> []" and "\<not> is_space (hd (rev s))"
    by (simp_all add: hd_rev)
  then have "dropWhile is_space (rev s) = rev s"
    by (cases "rev s") simp_all
  with a show ?thesis by (simp add: strip_def)
qed

lemma py_int_show_int: "py_int (show_int i) = Some i"
proof -
  let ?n = "nat \<bar>i\<bar>"
  let ?ds = "show_nat ?n"
  from show_nat_digits [of ?n] have ne: "?ds \<noteq> []" and dig: "\<forall>c \<in> set ?ds. is_digit c"
    by simp_all
  from ne dig have hd_d: "is_digit (hd ?ds)" and last_d: "is_digit (last ?ds)"
    by simp_all
  have ok: "digits_ok ?ds" using ne dig by (rule digits_ok_all_digits)
  have val: "digits_value ?ds = ?n" by (rule digits_value_show_nat)
  show ?thesis
  proof (cases "i < 0")
    case True
    then have s: "show_int i = CHR ''-'' # ?ds"
      by (simp add: show_int_def abs_if)
    have sp: "\<not> is_space CHR ''-''" by (simp add: is_space_def)
    from ne last_d have "strip (CHR ''-'' # ?ds) = CHR ''-'' # ?ds"
      by (intro strip_id) (simp_all add: sp is_digit_not_special)
    with ok val True show ?thesis
      by (simp add: py_int_def s)
  next
    case False
    then have s: "show_int i = ?ds"
      by (simp add: show_int_def abs_if)
    from ne hd_d last_d have st: "strip ?ds = ?ds"
      by (intro strip_id) (simp_all add: is_digit_not_special)
    from hd_d have "hd ?ds \<noteq> CHR ''-''" "hd ?ds \<noteq> CHR ''+''"
      by (rule is_digit_not_special)+
    with ok val False st show ?thesis
      by (simp add: py_int_def s)
  qed
qed

lemma str_split_no_sep: "c \<notin> set xs \<Longrightarrow> str_split c (xs @ c # ys) = xs # str_split c ys"
  by (induction xs) auto

lemma str_split_first: "\<exists>rest. str_split c s = takeWhile (\<lambda>x. x \<noteq> c) s # rest"
proof (induction s)
  case Nil
  then show ?case by simp
next
  case (Cons x s)
  then obtain rest where "str_split c s = takeWhile (\<lambda>x. x \<noteq> c) s # rest" by blast
  then show ?case by simp
qed

lemma show_int_chars: "c \<in> set (show_int i) \<Longrightarrow> is_digit c \<or> c = CHR ''-''"
  using show_nat_digits by (auto simp: show_int_def split: if_splits)

lemma show_int_no_special:
  "CHR ''#'' \<notin> set (show_int i)" "CHR '','' \<notin> set (show_int i)" "CHR '' '' \<notin> set (show_int i)"
  using show_int_chars [of _ i] is_digit_not_special by fastforce+

text \<open>The text between the first two \<open>#\<close> of a label that starts with the identity, cut at \<open>sep\<close>.\<close>

lemma split_identity:
  assumes "CHR ''#'' \<notin> set pre" and "sep \<noteq> CHR ''#''" and "sep \<notin> set (show_int i)"
  shows "\<exists>r1 r2 r3. str_split CHR ''#'' (pre @ CHR ''#'' # show_int i @ sep # tl_text) = pre # r1 # r2
           \<and> str_split sep r1 = show_int i # r3"
proof -
  let ?tail = "show_int i @ sep # tl_text"
  have a: "str_split CHR ''#'' (pre @ CHR ''#'' # ?tail) = pre # str_split CHR ''#'' ?tail"
    using assms(1) by (rule str_split_no_sep)
  obtain r2 where b: "str_split CHR ''#'' ?tail = takeWhile (\<lambda>x. x \<noteq> CHR ''#'') ?tail # r2"
    using str_split_first by blast
  have "takeWhile (\<lambda>x. x \<noteq> CHR ''#'') ?tail = show_int i @ takeWhile (\<lambda>x. x \<noteq> CHR ''#'') (sep # tl_text)"
    using show_int_no_special(1) [of i] by (intro takeWhile_append2) auto
  also have "\<dots> = show_int i @ sep # takeWhile (\<lambda>x. x \<noteq> CHR ''#'') tl_text"
    using assms(2) by simp
  finally have c: "takeWhile (\<lambda>x. x \<noteq> CHR ''#'') ?tail = show_int i @ sep # takeWhile (\<lambda>x. x \<noteq> CHR ''#'') tl_text" .
  have d: "str_split sep (show_int i @ sep # takeWhile (\<lambda>x. x \<noteq> CHR ''#'') tl_text) =
            show_int i # str_split sep (takeWhile (\<lambda>x. x \<noteq> CHR ''#'') tl_text)"
    using assms(3) by (rule str_split_no_sep)
  from a b c d show ?thesis by simp
qed

text \<open>The listing labels start with the identity, so their parse is right for every name.\<close>

lemma parse_food_id_food_label: "parse_food_id (food_label f) = Inr (F_Food_ID f)"
proof -
  from split_identity [of "[]" "CHR '' ''" "F_Food_ID f"
      "''- '' @ F_Food_Name f @ '' (qty '' @ show_int (F_Quantity f) @ '')''"]
  obtain r1 r2 r3 where "str_split CHR ''#'' (food_label f) = [] # r1 # r2"
    and "str_split CHR '' '' r1 = show_int (F_Food_ID f) # r3"
    using show_int_no_special(3) by (auto simp: food_label_def)
  then show ?thesis
    by (simp add: parse_food_id_def py_int_show_int)
qed

lemma parse_food_id_food_label2: "parse_food_id (food_label2 f) = Inr (F_Food_ID f)"
proof -
  from split_identity [of "[]" "CHR '' ''" "F_Food_ID f" "''- '' @ F_Food_Name f"]
  obtain r1 r2 r3 where "str_split CHR ''#'' (food_label2 f) = [] # r1 # r2"
    and "str_split CHR '' '' r1 = show_int (F_Food_ID f) # r3"
    using show_int_no_special(3) by (auto simp: food_label2_def)
  then show ?thesis
    by (simp add: parse_food_id_def py_int_show_int)
qed

lemma filter_unique_key:
  "distinct (map key xs) \<Longrightarrow> p \<in> set xs \<Longrightarrow> filter (\<lambda>x. key x = key p) xs = [p]"
proof (induction xs)
  case Nil
  then show ?case by simp
next
  case (Cons x xs)
  show ?case
  proof (cases "x = p")
    case True
    from Cons.prems True have notin: "key p \<notin> key ` set xs" by simp
    have "filter (\<lambda>x. key x = key p) xs = []"
      unfolding filter_empty_conv
    proof (intro ballI notI)
      fix y
      assume "y \<in> set xs" and "key y = key p"
      then have "key p \<in> key ` set xs" by (metis imageI)
      with notin show False ..
    qed
    with True show ?thesis by simp
  next
    case False
    with Cons.prems have p: "p \<in> set xs" by simp
    with Cons.prems have "key x \<noteq> key p" by auto
    with Cons p show ?thesis by simp
  qed
qed

lemma resolve_selected_provider:
  assumes "p \<in> set (Providers d)" and "CHR ''#'' \<notin> set (P_Name p)"
    and "distinct (map P_Provider_ID (Providers d))"
  shows "resolve_provider (providers_df d) (provider_label p) = Inr (Some (P_Provider_ID p), P_Type p)"
proof -
  have lab: "provider_label p =
      (P_Name p @ '' ('') @ CHR ''#'' # show_int (P_Provider_ID p) @ CHR '','' # ('' '' @ P_Type p @ '')'')"
    by (simp add: provider_label_def)
  from assms(2) have "CHR ''#'' \<notin> set (P_Name p @ '' ('')" by simp
  from split_identity [OF this, of "CHR '',''" "P_Provider_ID p" "'' '' @ P_Type p @ '')''"]
  obtain r1 r2 r3 where s1: "str_split CHR ''#'' (provider_label p) = (P_Name p @ '' ('') # r1 # r2"
    and s2: "str_split CHR '','' r1 = show_int (P_Provider_ID p) # r3"
    using show_int_no_special(2) unfolding lab by auto
  from assms(1) have mem: "p \<in> set (providers_df d)"
    by (simp add: providers_df_def)
  then have ne: "providers_df d \<noteq> []"
    by (metis empty_iff empty_set)
  have "mset (map P_Provider_ID (providers_df d)) = mset (map P_Provider_ID (Providers d))"
    by (simp add: providers_df_def)
  with assms(3) have "distinct (map P_Provider_ID (providers_df d))"
    by (metis mset_eq_imp_distinct_iff)
  from filter_unique_key [OF this mem]
  have f: "filter (\<lambda>x. P_Provider_ID x = P_Provider_ID p) (providers_df d) = [p]" .
  from ne s1 s2 f show ?thesis
    by (simp add: resolve_provider_def py_int_show_int)
qed

text \<open>
  Where the name of the selected provider has no \<open>#\<close>, identities are unique and the
  provider's identity is not 0, Add Food does insert one listing with the selected provider's
  identity and current type.
\<close>

lemma add_food_selected_provider:
  assumes "p \<in> set (Providers d)" and "CHR ''#'' \<notin> set (P_Name p)"
    and "distinct (map P_Provider_ID (Providers d))" and "P_Provider_ID p \<noteq> 0"
    and "f_name \<noteq> []" and "f_loc \<noteq> []"
  shows "add_food (provider_label p) f_name f_qty f_exp f_loc f_food_type f_meal d =
     Inr (Success ''Food listing added.'',
          d\<lparr>Food_Listings := Food_Listings d @
            [\<lparr> F_Food_ID = next_rowid (map F_Food_ID (Food_Listings d)),
               F_Food_Name = f_name, F_Quantity = f_qty, F_Expiry_Date = f_exp,
               F_Provider_ID = P_Provider_ID p, F_Provider_Type = P_Type p,
               F_Location = f_loc, F_Food_Type = f_food_type, F_Meal_Type = f_meal \<rparr>]\<rparr>)"
  using assms(4-6) by (simp add: add_food_def resolve_selected_provider [OF assms(1-3)])

text \<open>With no provider, or an empty Food Name or Location, a run that reaches the button shows
  the validation error and writes nothing.\<close>

lemma add_food_missing_field:
  assumes "Providers d = [] \<or> f_name = [] \<or> f_loc = []"
    and "add_food prov_row f_name f_qty f_exp f_loc f_food_type f_meal d = Inr (msg, d')"
  shows "msg = Error ''Provider, Food Name, and Location are required.'' \<and> d' = d"
proof (cases "Providers d = []")
  case True
  then have "resolve_provider (providers_df d) prov_row = Inr (None, [])"
    by (simp add: resolve_provider_def providers_df_def)
  with assms(2) show ?thesis by (simp add: add_food_def)
next
  case False
  with assms(1) have "f_name = [] \<or> f_loc = []" by simp
  with assms(2) show ?thesis
    by (cases "resolve_provider (providers_df d) prov_row") (auto simp: add_food_def)
qed

end
